theory Spec2Isabelle
  imports Complex_Main
begin

section \<open>Data frames\<close>

text \<open>
  The two scripts work on pandas data frames.  A frame is modelled by its list of column
  names and its list of rows, every row holding one cell per column.  A cell is a missing
  value, a text, an integer, a float (as the real number it denotes) or a timestamp.
\<close>

datatype datetime =
  Datetime (year: int) (month: int) (day: int) (hour: int) (minute: int) (second: int)

datatype cell = NaN | Str string | IntV int | FloatV real | Timestamp datetime

record table =
  columns :: "string list"
  rows :: "cell list list"

datatype error =
  FileNotFoundError | ParserError | KeyError | AttributeError | ValueError | TypeError

text \<open>
  Library functions whose results depend on text or float formats are parameters of the
  model: the matcher of \<open>strptime\<close> for a format (it returns the hour, minute and second
  it read), the float parser behind \<open>pd.to_numeric\<close>, and \<open>str\<close> on a float.
\<close>

record library =
  strptime :: "string \<Rightarrow> string \<Rightarrow> (int \<times> int \<times> int) option"
  str_to_float :: "string \<Rightarrow> real option"
  float_to_str :: "real \<Rightarrow> string"

definition ebind :: "error + 'a \<Rightarrow> ('a \<Rightarrow> error + 'b) \<Rightarrow> error + 'b" where
  "ebind m f = (case m of Inl e \<Rightarrow> Inl e | Inr x \<Rightarrow> f x)"

fun traverse :: "('a \<Rightarrow> error + 'b) \<Rightarrow> 'a list \<Rightarrow> error + 'b list" where
  "traverse f [] = Inr []"
| "traverse f (x # xs) =
     (case f x of Inl e \<Rightarrow> Inl e
      | Inr y \<Rightarrow> (case traverse f xs of Inl e \<Rightarrow> Inl e | Inr ys \<Rightarrow> Inr (y # ys)))"

definition cell_at :: "string list \<Rightarrow> cell list \<Rightarrow> string \<Rightarrow> cell" where
  "cell_at cs r c = (case map_of (zip cs r) c of Some v \<Rightarrow> v | None \<Rightarrow> NaN)"

text \<open>\<open>df[c]\<close>: the cells of column \<open>c\<close>, or \<open>KeyError\<close>.\<close>

definition get_column :: "table \<Rightarrow> string \<Rightarrow> error + cell list" where
  "get_column df c =
     (if c \<in> set (columns df) then Inr (map (\<lambda>r. cell_at (columns df) r c) (rows df))
      else Inl KeyError)"

text \<open>\<open>df[c] = vs\<close>: replaces column \<open>c\<close> where it stands, or appends it as the last column.\<close>

definition put_cell :: "string list \<Rightarrow> string \<Rightarrow> cell \<Rightarrow> cell list \<Rightarrow> cell list" where
  "put_cell cs c v r = map (\<lambda>(c', x). if c' = c then v else x) (zip cs r)"

definition set_column :: "table \<Rightarrow> string \<Rightarrow> cell list \<Rightarrow> table" where
  "set_column df c vs =
     (if c \<in> set (columns df)
      then df\<lparr>rows := map (\<lambda>(r, v). put_cell (columns df) c v r) (zip (rows df) vs)\<rparr>
      else df\<lparr>columns := columns df @ [c], rows := map (\<lambda>(r, v). r @ [v]) (zip (rows df) vs)\<rparr>)"


text \<open>\<open>df.dropna()\<close>: keeps the rows without any missing cell.\<close>

definition dropna :: "table \<Rightarrow> table" where
  "dropna df = df\<lparr>rows := filter (\<lambda>r. NaN \<notin> set r) (rows df)\<rparr>"

subsection \<open>Inner merge on one key column\<close>

text \<open>
  \<open>pd.merge(l, r, on=k, how="inner")\<close>.  The result has the columns of \<open>l\<close>, then those of
  \<open>r\<close> without the key; a name other than the key that both frames have gets the suffix
  \<open>_x\<close> on the left and \<open>_y\<close> on the right.  Every left row is paired, in order, with
  every right row of an equal key.  Keys are compared as pandas compares them: missing keys
  match each other, and an integer matches the float of the same value.

  The only error of the model is an absent key column.  pandas also refuses key columns of
  different kinds (numbers against text) and, in its recent versions, suffixes that repeat
  a column name; on such frames the model goes on where the code stops, so what is proved
  of every result of the model holds of every result of the code.
\<close>

definition key_norm :: "cell \<Rightarrow> cell" where
  "key_norm v = (case v of IntV i \<Rightarrow> FloatV (real_of_int i) | _ \<Rightarrow> v)"

definition key_eq :: "cell \<Rightarrow> cell \<Rightarrow> bool" where
  "key_eq a b = (key_norm a = key_norm b)"

definition suffix_left :: "string list \<Rightarrow> string \<Rightarrow> string \<Rightarrow> string" where
  "suffix_left rcols k c = (if c \<noteq> k \<and> c \<in> set rcols then c @ ''_x'' else c)"

definition suffix_right :: "string list \<Rightarrow> string \<Rightarrow> string \<Rightarrow> string" where
  "suffix_right lcols k c = (if c \<noteq> k \<and> c \<in> set lcols then c @ ''_y'' else c)"

definition without_key :: "string list \<Rightarrow> string \<Rightarrow> cell list \<Rightarrow> cell list" where
  "without_key cs k r = map snd (filter (\<lambda>(c, x). c \<noteq> k) (zip cs r))"

definition merge :: "table \<Rightarrow> table \<Rightarrow> string \<Rightarrow> error + table" where
  "merge l r k =
     (if k \<notin> set (columns l) \<or> k \<notin> set (columns r) then Inl KeyError
      else Inr \<lparr>columns = map (suffix_left (columns r) k) (columns l)
                          @ map (suffix_right (columns l) k) (filter (\<lambda>c. c \<noteq> k) (columns r)),
                rows = concat (map (\<lambda>lr.
                         map (\<lambda>rr. lr @ without_key (columns r) k rr)
                             (filter (\<lambda>rr. key_eq (cell_at (columns l) lr k) (cell_at (columns r) rr k))
                                     (rows r)))
                         (rows l))\<rparr>)"

section \<open>Time of day and timestamps\<close>

text \<open>
  \<open>pd.to_datetime(col, format=time_format, errors='coerce')\<close>, cell by cell: a text that
  the format matches becomes a timestamp on the date \<open>strptime\<close> gives to a format
  without date directives, 1900-01-01; everything else becomes missing.
\<close>

definition to_datetime :: "library \<Rightarrow> string \<Rightarrow> cell \<Rightarrow> cell" where
  "to_datetime lib fmt v =
     (case v of
        Str s \<Rightarrow> (case strptime lib fmt s of
                    Some (h, m, sec) \<Rightarrow> Timestamp (Datetime 1900 1 1 h m sec)
                  | None \<Rightarrow> NaN)
      | _ \<Rightarrow> NaN)"

text \<open>Days of the proleptic Gregorian calendar, as the \<open>datetime\<close> module counts them.\<close>

definition is_leap :: "int \<Rightarrow> bool" where
  "is_leap y = (y mod 4 = 0 \<and> (y mod 100 \<noteq> 0 \<or> y mod 400 = 0))"

definition days_before_year :: "int \<Rightarrow> int" where
  "days_before_year y = (y - 1) * 365 + (y - 1) div 4 - (y - 1) div 100 + (y - 1) div 400"

definition days_before_month :: "int \<Rightarrow> int \<Rightarrow> int" where
  "days_before_month y m =
     [0, 0, 31, 59, 90, 120, 151, 181, 212, 243, 273, 304, 334] ! nat m
       + (if m > 2 \<and> is_leap y then 1 else 0)"

definition ymd2ord :: "datetime \<Rightarrow> int" where
  "ymd2ord d = days_before_year (year d) + days_before_month (year d) (month d) + day d"

text \<open>\<open>(a - b).total_seconds()\<close> for two timestamps without fractions of a second.\<close>

definition total_seconds :: "datetime \<Rightarrow> datetime \<Rightarrow> int" where
  "total_seconds a b =
     (ymd2ord a - ymd2ord b) * 86400
       + (hour a - hour b) * 3600 + (minute a - minute b) * 60 + (second a - second b)"

text \<open>
  A model of the format \<open>%H:%M:%S\<close> for the examples: three fields of one or two decimal
  digits, separated by colons, with hour below 24 and minute and second below 60.
\<close>

definition digit :: "char \<Rightarrow> int option" where
  "digit ch = (let n = (of_char ch :: nat) in if 48 \<le> n \<and> n \<le> 57 then Some (int n - 48) else None)"

fun field :: "string \<Rightarrow> int option" where
  "field [a] = digit a"
| "field [a, b] =
     (case (digit a, digit b) of (Some x, Some y) \<Rightarrow> Some (10 * x + y) | _ \<Rightarrow> None)"
| "field _ = None"

fun split_on :: "char \<Rightarrow> string \<Rightarrow> string list" where
  "split_on sep [] = [[]]"
| "split_on sep (ch # s) =
     (if ch = sep then [] # split_on sep s
      else (case split_on sep s of w # ws \<Rightarrow> (ch # w) # ws | [] \<Rightarrow> [[ch]]))"

definition strptime_hms :: "string \<Rightarrow> string \<Rightarrow> (int \<times> int \<times> int) option" where
  "strptime_hms fmt s =
     (if fmt \<noteq> ''%H:%M:%S'' then None
      else (case map field (split_on CHR '':'' s) of
              [Some h, Some m, Some sec] \<Rightarrow>
                if h < 24 \<and> m < 60 \<and> sec < 60 then Some (h, m, sec) else None
            | _ \<Rightarrow> None))"

section \<open>Files\<close>

text \<open>
  A file system maps a path to a file.  A delimited text file stands for the frame that
  \<open>pd.read_csv\<close> loads from it; a feature collection file holds its features; a file that
  was opened for writing and not written to the end is partial.  A frame written by
  \<open>to_csv\<close> is kept as the frame: reading it back infers the column types again
  (a timestamp comes back as text), which touches no column that the second stage reads.
  Directories, which both stages create when absent, and faults of the storage itself are
  not part of the model.
\<close>

record feature =
  geometry :: "(cell \<times> cell \<times> cell \<times> cell) list"
  trip :: "cell list"
  stop :: "cell list"
  route :: "cell list"

datatype content = CsvFile table | GeoJsonFile "feature list" | PartialFile

type_synonym filesystem = "string \<Rightarrow> content option"

text \<open>\<open>os.path.join\<close> of two components.\<close>

definition path_join :: "string \<Rightarrow> string \<Rightarrow> string" where
  "path_join a p =
     (if p \<noteq> [] \<and> hd p = CHR ''/'' then p
      else if a = [] \<or> last a = CHR ''/'' then a @ p
      else a @ ''/'' @ p)"

section \<open>Stage 1: create\_dataframe.py\<close>



definition time_columns :: "string list" where
  "time_columns = [''arrival_time'', ''departure_time'']"

definition time_format :: string where
  "time_format = ''%H:%M:%S''"

text \<open>The loop of \<open>process_stop_times\<close> over the time columns.\<close>

fun convert_columns :: "library \<Rightarrow> string list \<Rightarrow> table \<Rightarrow> error + table" where
  "convert_columns lib [] df = Inr df"
| "convert_columns lib (col # cols) df =
     ebind (get_column df col)
       (\<lambda>vs. convert_columns lib cols (set_column df col (map (to_datetime lib time_format) vs)))"

definition process_stop_times :: "library \<Rightarrow> table \<Rightarrow> error + table" where
  "process_stop_times lib df = ebind (convert_columns lib time_columns df) (\<lambda>df'. Inr (dropna df'))"

text \<open>
  \<open>pd.to_numeric\<close>, cell by cell: numbers and missing values stay, a text is parsed or
  raises \<open>ValueError\<close>, a timestamp becomes its nanoseconds since 1970-01-01.
\<close>

definition epoch :: datetime where
  "epoch = Datetime 1970 1 1 0 0 0"

definition to_numeric :: "library \<Rightarrow> cell \<Rightarrow> error + cell" where
  "to_numeric lib v =
     (case v of
        Str s \<Rightarrow> (case str_to_float lib s of Some x \<Rightarrow> Inr (FloatV x) | None \<Rightarrow> Inl ValueError)
      | Timestamp d \<Rightarrow> Inr (IntV (total_seconds d epoch * 1000000000))
      | _ \<Rightarrow> Inr v)"

definition numeric_column :: "library \<Rightarrow> table \<Rightarrow> string \<Rightarrow> error + table" where
  "numeric_column lib df c =
     ebind (get_column df c) (\<lambda>vs. ebind (traverse (to_numeric lib) vs) (\<lambda>ns. Inr (set_column df c ns)))"

text \<open>\<open>final[final["route_type"] == 1]\<close>.\<close>

definition is_one :: "cell \<Rightarrow> bool" where
  "is_one v = (v = IntV 1 \<or> v = FloatV 1)"

definition subway_rows :: "table \<Rightarrow> error + table" where
  "subway_rows final =
     (if ''route_type'' \<in> set (columns final)
      then Inr (final\<lparr>rows := filter (\<lambda>r. is_one (cell_at (columns final) r ''route_type''))
                                     (rows final)\<rparr>)
      else Inl KeyError)"

text \<open>
  \<open>(metro['arrival_time'] - datetime(1970,1,1)).dt.total_seconds().astype(int)\<close>: the
  subtraction is defined on timestamps only.
\<close>

definition seconds_since_epoch :: "cell \<Rightarrow> error + cell" where
  "seconds_since_epoch v =
     (case v of Timestamp d \<Rightarrow> Inr (IntV (total_seconds d epoch)) | _ \<Rightarrow> Inl TypeError)"




text \<open>Lines 94 to 106 of \<open>main\<close>: from the four loaded frames to the metro frame.\<close>

definition assemble :: "library \<Rightarrow> table \<Rightarrow> table \<Rightarrow> table \<Rightarrow> table \<Rightarrow> error + table" where
  "assemble lib trips routes stops stop_times0 =
     ebind (process_stop_times lib stop_times0) (\<lambda>stop_times.
     ebind (merge trips routes ''route_id'') (\<lambda>tripsandroutes.
     ebind (merge stop_times stops ''stop_id'') (\<lambda>final_stops0.
     ebind (numeric_column lib final_stops0 ''stop_lat'') (\<lambda>final_stops1.
     ebind (numeric_column lib final_stops1 ''stop_lon'') (\<lambda>final_stops.
     ebind (merge final_stops tripsandroutes ''trip_id'') (\<lambda>final.
     ebind (subway_rows final) (\<lambda>metro0.
     ebind (get_column metro0 ''arrival_time'') (\<lambda>arrivals.
     ebind (traverse seconds_since_epoch arrivals) (\<lambda>secs.
       Inr (set_column (set_column metro0 ''arrival_time_int'' secs) ''elevation''
              (map (\<lambda>r. IntV 0) (rows metro0))))))))))))"



section \<open>Stage 2: create\_geojson\_file.py\<close>

text \<open>\<open>Series.unique()\<close>: the distinct values in the order of their first occurrence.\<close>

definition unique :: "'a list \<Rightarrow> 'a list" where
  "unique xs = rev (remdups (rev xs))"

text \<open>The elementwise \<open>==\<close> of a column with a value: a missing value equals nothing.\<close>

definition cell_eq :: "cell \<Rightarrow> cell \<Rightarrow> bool" where
  "cell_eq a b = (a \<noteq> NaN \<and> a = b)"

text \<open>
  The order in which \<open>groupby\<close> sorts its keys: numbers by value, texts by code points.
\<close>

fun str_le :: "string \<Rightarrow> string \<Rightarrow> bool" where
  "str_le [] t = True"
| "str_le (a # s) [] = False"
| "str_le (a # s) (b # t) =
     (if a = b then str_le s t else (of_char a :: nat) < of_char b)"

definition cell_num :: "cell \<Rightarrow> real option" where
  "cell_num v = (case v of IntV i \<Rightarrow> Some (real_of_int i) | FloatV x \<Rightarrow> Some x | _ \<Rightarrow> None)"

definition cell_le :: "cell \<Rightarrow> cell \<Rightarrow> bool" where
  "cell_le a b =
     (case (a, b) of
        (Str s, Str t) \<Rightarrow> str_le s t
      | _ \<Rightarrow> (case (cell_num a, cell_num b) of (Some x, Some y) \<Rightarrow> x \<le> y | _ \<Rightarrow> True))"

fun insert_key :: "cell \<Rightarrow> cell list \<Rightarrow> cell list" where
  "insert_key k [] = [k]"
| "insert_key k (x # xs) = (if cell_le k x then k # x # xs else x # insert_key k xs)"

fun sort_keys :: "cell list \<Rightarrow> cell list" where
  "sort_keys [] = []"
| "sort_keys (k # ks) = insert_key k (sort_keys ks)"

text \<open>
  \<open>dict(tuple(df.groupby(c)))\<close>: one entry per key that is not missing, in sorted key
  order, holding the rows of that key in the order of the frame.
\<close>

definition groupby :: "table \<Rightarrow> string \<Rightarrow> error + (cell \<times> table) list" where
  "groupby df c =
     (if c \<in> set (columns df)
      then Inr (map (\<lambda>k. (k, df\<lparr>rows := filter (\<lambda>r. cell_at (columns df) r c = k) (rows df)\<rparr>))
                    (sort_keys (unique (filter (\<lambda>v. v \<noteq> NaN)
                       (map (\<lambda>r. cell_at (columns df) r c) (rows df))))))
      else Inl KeyError)"

text \<open>\<open>df.c\<close>: attribute access to a column.\<close>

definition get_attr :: "table \<Rightarrow> string \<Rightarrow> error + cell list" where
  "get_attr df c =
     (if c \<in> set (columns df) then Inr (map (\<lambda>r. cell_at (columns df) r c) (rows df))
      else Inl AttributeError)"

text \<open>The body of the loop over \<open>trips_dict.items()\<close>.\<close>

definition trip_feature :: "table \<Rightarrow> error + feature" where
  "trip_feature trip_data =
     ebind (get_attr trip_data ''stop_lon'') (\<lambda>lons.
     ebind (get_attr trip_data ''stop_lat'') (\<lambda>lats.
     ebind (get_attr trip_data ''elevation'') (\<lambda>elevs.
     ebind (get_attr trip_data ''arrival_time_int'') (\<lambda>times.
     ebind (get_attr trip_data ''trip_id'') (\<lambda>trip_ids.
     ebind (get_attr trip_data ''stop_id'') (\<lambda>stop_ids.
     ebind (get_attr trip_data ''route_short_name'') (\<lambda>names.
       Inr \<lparr>geometry = zip lons (zip lats (zip elevs times)),
            trip = unique trip_ids, stop = unique stop_ids, route = unique names\<rparr>)))))))"

definition create_geojson_features :: "table \<Rightarrow> cell \<Rightarrow> error + feature list" where
  "create_geojson_features df line =
     (if ''route_short_name'' \<in> set (columns df)
      then let line_df = df\<lparr>rows := filter (\<lambda>r. cell_eq (cell_at (columns df) r ''route_short_name'') line)
                                          (rows df)\<rparr>
           in ebind (groupby line_df ''trip_id'')
                (\<lambda>trips_dict. traverse (\<lambda>(trip_id, trip_data). trip_feature trip_data) trips_dict)
      else Inl KeyError)"

text \<open>
  \<open>save_geojson_file\<close> opens the output file for writing and then dumps the collection.
  \<open>geojson.dump\<close> refuses a missing number (\<open>allow_nan=False\<close>) with \<open>ValueError\<close>; the
  file is then left as far as it was written.
\<close>

definition feature_cells :: "feature \<Rightarrow> cell list" where
  "feature_cells f =
     concat (map (\<lambda>(a, b, c, d). [a, b, c, d]) (geometry f)) @ trip f @ stop f @ route f"

definition save_geojson_file ::
  "feature list \<Rightarrow> string \<Rightarrow> filesystem \<Rightarrow> (error + unit) \<times> filesystem" where
  "save_geojson_file features output_path fs =
     (if \<exists>f \<in> set features. NaN \<in> set (feature_cells f)
      then (Inl ValueError, fs(output_path \<mapsto> PartialFile))
      else (Inr (), fs(output_path \<mapsto> GeoJsonFile features)))"

definition load_metro_data :: "filesystem \<Rightarrow> string \<Rightarrow> error + table" where
  "load_metro_data fs file_path =
     (case fs file_path of
        None \<Rightarrow> Inl FileNotFoundError
      | Some (CsvFile df) \<Rightarrow> Inr df
      | Some _ \<Rightarrow> Inl ParserError)"

text \<open>\<open>f'{line}.geojson'\<close>: \<open>str\<close> of the label.\<close>

fun str_nat :: "nat \<Rightarrow> string" where
  "str_nat n = (if n < 10 then [char_of (48 + n)] else str_nat (n div 10) @ [char_of (48 + n mod 10)])"

definition str_int :: "int \<Rightarrow> string" where
  "str_int i = (if i < 0 then CHR ''-'' # str_nat (nat (- i)) else str_nat (nat i))"

definition pad :: "nat \<Rightarrow> string \<Rightarrow> string" where
  "pad n s = replicate (n - length s) CHR ''0'' @ s"

definition str_datetime :: "datetime \<Rightarrow> string" where
  "str_datetime d =
     pad 4 (str_int (year d)) @ ''-'' @ pad 2 (str_int (month d)) @ ''-'' @ pad 2 (str_int (day d))
       @ '' '' @ pad 2 (str_int (hour d)) @ '':'' @ pad 2 (str_int (minute d)) @ '':''
       @ pad 2 (str_int (second d))"

definition str_cell :: "library \<Rightarrow> cell \<Rightarrow> string" where
  "str_cell lib v =
     (case v of
        NaN \<Rightarrow> ''nan''
      | Str s \<Rightarrow> s
      | IntV i \<Rightarrow> str_int i
      | FloatV x \<Rightarrow> float_to_str lib x
      | Timestamp d \<Rightarrow> str_datetime d)"

definition output_file :: "library \<Rightarrow> string \<Rightarrow> cell \<Rightarrow> string" where
  "output_file lib output_dir line = path_join output_dir (str_cell lib line @ ''.geojson'')"

text \<open>The loop of \<open>main\<close> over the lines.\<close>

fun process_lines ::
  "library \<Rightarrow> table \<Rightarrow> string \<Rightarrow> cell list \<Rightarrow> filesystem \<Rightarrow> (error + unit) \<times> filesystem" where
  "process_lines lib df output_dir [] fs = (Inr (), fs)"
| "process_lines lib df output_dir (line # lines) fs =
     (case create_geojson_features df line of
        Inl e \<Rightarrow> (Inl e, fs)
      | Inr features \<Rightarrow>
          (case save_geojson_file features (output_file lib output_dir line) fs of
             (Inl e, fs') \<Rightarrow> (Inl e, fs')
           | (Inr u, fs') \<Rightarrow> process_lines lib df output_dir lines fs'))"

definition create_geojson_file_main ::
  "library \<Rightarrow> string \<Rightarrow> filesystem \<Rightarrow> (error + unit) \<times> filesystem" where
  "create_geojson_file_main lib current_dir fs =
     (let data_file = path_join (path_join current_dir ''data'') ''metro_data.csv'';
          output_dir = path_join current_dir ''geojson''
      in case load_metro_data fs data_file of
           Inl e \<Rightarrow> (Inl e, fs)
         | Inr df \<Rightarrow>
             (case get_column df ''route_short_name'' of
                Inl e \<Rightarrow> (Inl e, fs)
              | Inr names \<Rightarrow> process_lines lib df output_dir (unique names) fs))"

section \<open>The earlier script create\_geojson\_file.py\<close>



section \<open>Well-formed frames and row-level views\<close>

text \<open>
  Every row of a frame has a cell in every column, and a frame as \<open>pd.read_csv\<close> returns
  it has distinct column names.
\<close>

definition full_rows :: "table \<Rightarrow> bool" where
  "full_rows df = (\<forall>r \<in> set (rows df). length r = length (columns df))"

definition wf_table :: "table \<Rightarrow> bool" where
  "wf_table df = (distinct (columns df) \<and> full_rows df)"

text \<open>What the loop of \<open>process_stop_times\<close> does to one row.\<close>

fun convert_row :: "library \<Rightarrow> string list \<Rightarrow> string list \<Rightarrow> cell list \<Rightarrow> cell list" where
  "convert_row lib cols [] r = r"
| "convert_row lib cols (c # cs) r =
     convert_row lib cols cs (put_cell cols c (to_datetime lib time_format (cell_at cols r c)) r)"

text \<open>What \<open>df[c] = vs\<close> does to one row and to the column names.\<close>

definition with_cell :: "string list \<Rightarrow> string \<Rightarrow> cell \<Rightarrow> cell list \<Rightarrow> cell list" where
  "with_cell cs c v r = (if c \<in> set cs then put_cell cs c v r else r @ [v])"

definition with_column :: "string list \<Rightarrow> string \<Rightarrow> string list" where
  "with_column cs c = (if c \<in> set cs then cs else cs @ [c])"

text \<open>A column name that the suffixes of a merge cannot produce.\<close>

definition plain :: "string \<Rightarrow> bool" where
  "plain c = (c = [] \<or> (last c \<noteq> CHR ''x'' \<and> last c \<noteq> CHR ''y''))"

text \<open>
  A frame loaded by \<open>pd.read_csv\<close> without date parsing holds no timestamp.  Every
  timestamp that \<open>to_datetime\<close> makes from a time of day lies on 1900-01-01.
\<close>

definition all_cells :: "(cell \<Rightarrow> bool) \<Rightarrow> table \<Rightarrow> bool" where
  "all_cells P df = (\<forall>r \<in> set (rows df). \<forall>v \<in> set r. P v)"

definition no_timestamp :: "cell \<Rightarrow> bool" where
  "no_timestamp v = (case v of Timestamp d \<Rightarrow> False | _ \<Rightarrow> True)"

definition csv_table :: "table \<Rightarrow> bool" where
  "csv_table df = (wf_table df \<and> all_cells no_timestamp df)"


text \<open>
  The rows of a line, the rows of a trip on a line, the point of a row, and the trip keys
  of a line in the order of \<open>groupby\<close>.
\<close>

definition line_rows :: "table \<Rightarrow> cell \<Rightarrow> cell list list" where
  "line_rows df line =
     filter (\<lambda>r. cell_eq (cell_at (columns df) r ''route_short_name'') line) (rows df)"

definition trip_rows :: "table \<Rightarrow> cell \<Rightarrow> cell \<Rightarrow> cell list list" where
  "trip_rows df line k = filter (\<lambda>r. cell_at (columns df) r ''trip_id'' = k) (line_rows df line)"

definition point :: "string list \<Rightarrow> cell list \<Rightarrow> cell \<times> cell \<times> cell \<times> cell" where
  "point cs r =
     (cell_at cs r ''stop_lon'', cell_at cs r ''stop_lat'', cell_at cs r ''elevation'',
      cell_at cs r ''arrival_time_int'')"

definition trip_keys :: "table \<Rightarrow> cell \<Rightarrow> cell list" where
  "trip_keys df line =
     sort_keys (unique (filter (\<lambda>v. v \<noteq> NaN)
       (map (\<lambda>r. cell_at (columns df) r ''trip_id'') (line_rows df line))))"

definition trip_feature_of :: "table \<Rightarrow> cell \<Rightarrow> cell \<Rightarrow> feature" where
  "trip_feature_of df line k =
     \<lparr>geometry = map (point (columns df)) (trip_rows df line k),
      trip = unique (map (\<lambda>r. cell_at (columns df) r ''trip_id'') (trip_rows df line k)),
      stop = unique (map (\<lambda>r. cell_at (columns df) r ''stop_id'') (trip_rows df line k)),
      route = unique (map (\<lambda>r. cell_at (columns df) r ''route_short_name'') (trip_rows df line k))\<rparr>"


definition metro_file :: "string \<Rightarrow> string" where
  "metro_file current_dir = path_join (path_join current_dir ''data'') ''metro_data.csv''"

text \<open>A key column that holds every key at most once, as the merge compares keys.\<close>

definition unique_key :: "table \<Rightarrow> string \<Rightarrow> bool" where
  "unique_key df k = distinct (map (\<lambda>r. key_norm (cell_at (columns df) r k)) (rows df))"

section \<open>Example feeds\<close>

text \<open>
  The library instance of the examples reads times with the model of \<open>%H:%M:%S\<close>; the
  examples hold no float as text and no float label.
\<close>

definition example_library :: library where
  "example_library =
     \<lparr>strptime = strptime_hms, str_to_float = (\<lambda>s. None), float_to_str = (\<lambda>x. [])\<rparr>"

text \<open>
  A stop\_times frame whose second row has the time 25:61:00 and whose third row has
  well-formed times and no stop sequence number.
\<close>

definition stop_times_gaps :: table where
  "stop_times_gaps =
     \<lparr>columns = [''trip_id'', ''arrival_time'', ''departure_time'', ''stop_id'', ''stop_sequence''],
      rows = [[Str ''T1'', Str ''08:00:00'', Str ''08:00:30'', Str ''S1'', IntV 1],
              [Str ''T1'', Str ''25:61:00'', Str ''25:61:30'', Str ''S2'', IntV 2],
              [Str ''T1'', Str ''08:10:00'', Str ''08:10:30'', Str ''S3'', NaN]]\<rparr>"

definition trips_one :: table where
  "trips_one = \<lparr>columns = [''route_id'', ''trip_id''], rows = [[Str ''R1'', Str ''T1'']]\<rparr>"

definition routes_one :: table where
  "routes_one =
     \<lparr>columns = [''route_id'', ''route_short_name'', ''route_type''],
      rows = [[Str ''R1'', Str ''L1'', IntV 1]]\<rparr>"

definition stops_three :: table where
  "stops_three =
     \<lparr>columns = [''stop_id'', ''stop_lat'', ''stop_lon''],
      rows = [[Str ''S1'', FloatV 41.38, FloatV 2.17],
              [Str ''S2'', FloatV 41.39, FloatV 2.18],
              [Str ''S3'', FloatV 41.40, FloatV 2.19]]\<rparr>"

text \<open>One stop visit with the arrival time 08:15:30, and the frame assembled from it.\<close>

definition stop_times_one :: table where
  "stop_times_one =
     \<lparr>columns = [''trip_id'', ''arrival_time'', ''departure_time'', ''stop_id'', ''stop_sequence''],
      rows = [[Str ''T1'', Str ''08:15:30'', Str ''08:16:00'', Str ''S1'', IntV 1]]\<rparr>"

definition metro_one :: table where
  "metro_one =
     \<lparr>columns = [''trip_id'', ''arrival_time'', ''departure_time'', ''stop_id'', ''stop_sequence'',
                 ''stop_lat'', ''stop_lon'', ''route_id'', ''route_short_name'', ''route_type'',
                 ''arrival_time_int'', ''elevation''],
      rows = [[Str ''T1'', Timestamp (Datetime 1900 1 1 8 15 30), Timestamp (Datetime 1900 1 1 8 16 0),
               Str ''S1'', IntV 1, FloatV 41.38, FloatV 2.17, Str ''R1'', Str ''L1'', IntV 1,
               IntV (- 2208959070), IntV 0]]\<rparr>"

text \<open>
  A feed with two subway lines in the working directory \<open>/work\<close>.  The stop of the second
  line has no latitude.
\<close>

definition trips_two :: table where
  "trips_two =
     \<lparr>columns = [''route_id'', ''service_id'', ''trip_id'', ''trip_headsign'', ''direction_id'',
                 ''shape_id'', ''wheelchair_accessible''],
      rows = [[Str ''R1'', Str ''WK'', Str ''T1'', Str ''Fondo'', IntV 0, Str ''SH1'', IntV 1],
              [Str ''R2'', Str ''WK'', Str ''T2'', Str ''Badalona'', IntV 0, Str ''SH2'', IntV 1]]\<rparr>"

definition routes_two :: table where
  "routes_two =
     \<lparr>columns = [''route_id'', ''route_short_name'', ''route_type'', ''route_text_color'', ''route_url''],
      rows = [[Str ''R1'', Str ''L1'', IntV 1, Str ''FFFFFF'', NaN],
              [Str ''R2'', Str ''L2'', IntV 1, Str ''FFFFFF'', NaN]]\<rparr>"

definition stops_two :: table where
  "stops_two =
     \<lparr>columns = [''stop_id'', ''stop_code'', ''stop_name'', ''stop_lat'', ''stop_lon'', ''stop_url'',
                 ''location_type'', ''parent_station'', ''wheelchair_boarding''],
      rows = [[Str ''S1'', IntV 101, Str ''Catalunya'', FloatV 41.38, FloatV 2.17, NaN, IntV 0, NaN, IntV 1],
              [Str ''S2'', IntV 102, Str ''Pep Ventura'', NaN, FloatV 2.24, NaN, IntV 0, NaN, IntV 1]]\<rparr>"

definition stop_times_two :: table where
  "stop_times_two =
     \<lparr>columns = [''trip_id'', ''arrival_time'', ''departure_time'', ''stop_id'', ''stop_sequence''],
      rows = [[Str ''T1'', Str ''08:00:00'', Str ''08:00:30'', Str ''S1'', IntV 1],
              [Str ''T2'', Str ''09:00:00'', Str ''09:00:30'', Str ''S2'', IntV 1]]\<rparr>"

definition feed_two :: filesystem where
  "feed_two =
     [''/work/data/trips.txt'' \<mapsto> CsvFile trips_two,
      ''/work/data/routes.txt'' \<mapsto> CsvFile routes_two,
      ''/work/data/stops.txt'' \<mapsto> CsvFile stops_two,
      ''/work/data/stop_times.txt'' \<mapsto> CsvFile stop_times_two]"

definition metro_two :: table where
  "metro_two =
     \<lparr>columns = [''trip_id'', ''arrival_time'', ''departure_time'', ''stop_id'', ''stop_sequence'',
                 ''stop_lat'', ''stop_lon'', ''route_id'', ''route_short_name'', ''route_type'',
                 ''arrival_time_int'', ''elevation''],
      rows = [[Str ''T1'', Timestamp (Datetime 1900 1 1 8 0 0), Timestamp (Datetime 1900 1 1 8 0 30),
               Str ''S1'', IntV 1, FloatV 41.38, FloatV 2.17, Str ''R1'', Str ''L1'', IntV 1,
               IntV (- 2208960000), IntV 0],
              [Str ''T2'', Timestamp (Datetime 1900 1 1 9 0 0), Timestamp (Datetime 1900 1 1 9 0 30),
               Str ''S2'', IntV 1, NaN, FloatV 2.24, Str ''R2'', Str ''L2'', IntV 1,
               IntV (- 2208956400), IntV 0]]\<rparr>"

definition features_L1 :: "feature list" where
  "features_L1 =
     [\<lparr>geometry = [(FloatV 2.17, FloatV 41.38, IntV 0, IntV (- 2208960000))],
       trip = [Str ''T1''], stop = [Str ''S1''], route = [Str ''L1'']\<rparr>]"

definition feed_two_assembled :: filesystem where
  "feed_two_assembled = feed_two(''/work/data/metro_data.csv'' \<mapsto> CsvFile metro_two)"

text \<open>A stops frame that lists the stop S1 twice, and the frame assembled with it.\<close>

definition stops_twice :: table where
  "stops_twice =
     \<lparr>columns = [''stop_id'', ''stop_lat'', ''stop_lon''],
      rows = [[Str ''S1'', FloatV 41.38, FloatV 2.17],
              [Str ''S1'', FloatV 41.39, FloatV 2.18]]\<rparr>"

definition metro_twice :: table where
  "metro_twice =
     \<lparr>columns = [''trip_id'', ''arrival_time'', ''departure_time'', ''stop_id'', ''stop_sequence'',
                 ''stop_lat'', ''stop_lon'', ''route_id'', ''route_short_name'', ''route_type'',
                 ''arrival_time_int'', ''elevation''],
      rows = [[Str ''T1'', Timestamp (Datetime 1900 1 1 8 15 30), Timestamp (Datetime 1900 1 1 8 16 0),
               Str ''S1'', IntV 1, FloatV 41.38, FloatV 2.17, Str ''R1'', Str ''L1'', IntV 1,
               IntV (- 2208959070), IntV 0],
              [Str ''T1'', Timestamp (Datetime 1900 1 1 8 15 30), Timestamp (Datetime 1900 1 1 8 16 0),
               Str ''S1'', IntV 1, FloatV 41.39, FloatV 2.18, Str ''R1'', Str ''L1'', IntV 1,
               IntV (- 2208959070), IntV 0]]\<rparr>"





section \<open>Basic facts\<close>

lemma ebind_Inr_iff: "ebind m f = Inr y \<longleftrightarrow> (\<exists>x. m = Inr x \<and> f x = Inr y)"
  by (cases m) (simp_all add: ebind_def)

lemma ebind_Inl_iff: "ebind m f = Inl e \<longleftrightarrow> m = Inl e \<or> (\<exists>x. m = Inr x \<and> f x = Inl e)"
  by (cases m) (simp_all add: ebind_def)

lemma ebind_Inr [simp]: "ebind (Inr x) f = f x"
  by (simp add: ebind_def)

lemma ebind_Inl [simp]: "ebind (Inl e) f = Inl e"
  by (simp add: ebind_def)

lemma zip_map_same: "zip xs (map g xs) = map (\<lambda>x. (x, g x)) xs"
  by (induction xs) simp_all

lemma set_column_map:
  "c \<in> set (columns df) \<Longrightarrow>
   set_column df c (map g (rows df)) = df\<lparr>rows := map (\<lambda>r. put_cell (columns df) c (g r) r) (rows df)\<rparr>"
  by (simp add: set_column_def zip_map_same o_def)

lemma convert_columns_rows:
  "set cs \<subseteq> set (columns df) \<Longrightarrow>
   convert_columns lib cs df = Inr (df\<lparr>rows := map (convert_row lib (columns df) cs) (rows df)\<rparr>)"
proof (induction cs arbitrary: df)
  case Nil
  then show ?case by simp
next
  case (Cons c cs)
  let ?df1 = "df\<lparr>rows := map (\<lambda>r. put_cell (columns df) c (to_datetime lib time_format (cell_at (columns df) r c)) r) (rows df)\<rparr>"
  have "convert_columns lib (c # cs) df = convert_columns lib cs ?df1"
    using Cons.prems by (simp add: get_column_def set_column_map[of c df, symmetric] o_def)
  also have "\<dots> = Inr (?df1\<lparr>rows := map (convert_row lib (columns ?df1) cs) (rows ?df1)\<rparr>)"
    using Cons.prems by (intro Cons.IH) simp
  finally show ?case by (simp add: o_def)
qed

lemma convert_columns_KeyError:
  "\<not> set cs \<subseteq> set (columns df) \<Longrightarrow> convert_columns lib cs df = Inl KeyError"
proof (induction cs arbitrary: df)
  case Nil
  then show ?case by simp
next
  case (Cons c cs)
  show ?case
  proof (cases "c \<in> set (columns df)")
    case True
    then have "\<not> set cs \<subseteq> set (columns (set_column df c (map (to_datetime lib time_format) (map (\<lambda>r. cell_at (columns df) r c) (rows df)))))"
      using Cons.prems by (simp add: set_column_def)
    then show ?thesis using True Cons.IH by (simp add: get_column_def)
  next
    case False
    then show ?thesis by (simp add: get_column_def)
  qed
qed

lemma process_stop_times_eq:
  "process_stop_times lib df =
     (if set time_columns \<subseteq> set (columns df)
      then Inr (df\<lparr>rows := filter (\<lambda>r. NaN \<notin> set r) (map (convert_row lib (columns df) time_columns) (rows df))\<rparr>)
      else Inl KeyError)"
  by (simp add: process_stop_times_def convert_columns_rows convert_columns_KeyError dropna_def)


lemma length_put_cell: "length r = length cs \<Longrightarrow> length (put_cell cs c v r) = length cs"
  by (simp add: put_cell_def)

lemma nth_put_cell:
  "length r = length cs \<Longrightarrow> i < length cs \<Longrightarrow>
   put_cell cs c v r ! i = (if cs ! i = c then v else r ! i)"
  by (simp add: put_cell_def)

lemma cell_at_nth:
  "distinct cs \<Longrightarrow> length r = length cs \<Longrightarrow> i < length cs \<Longrightarrow> cell_at cs r (cs ! i) = r ! i"
  by (simp add: cell_at_def map_of_zip_nth)

lemma cell_at_put_cell:
  assumes "distinct cs" "length r = length cs" "c' \<in> set cs"
  shows "cell_at cs (put_cell cs c v r) c' = (if c' = c then v else cell_at cs r c')"
proof -
  obtain i where i: "i < length cs" "cs ! i = c'"
    using assms(3) by (auto simp: in_set_conv_nth)
  have "cell_at cs (put_cell cs c v r) (cs ! i) = put_cell cs c v r ! i"
    using assms i by (intro cell_at_nth) (simp_all add: length_put_cell)
  moreover have "cell_at cs r (cs ! i) = r ! i"
    using assms i by (intro cell_at_nth)
  ultimately show ?thesis
    using assms i by (simp add: nth_put_cell)
qed

lemma to_datetime_NaN [simp]: "to_datetime lib fmt NaN = NaN"
  by (simp add: to_datetime_def)

lemma put_cell_keeps_NaN:
  assumes "distinct cs" "length r = length cs" "NaN \<in> set r"
  shows "NaN \<in> set (put_cell cs c (to_datetime lib fmt (cell_at cs r c)) r)"
proof -
  obtain i where i: "i < length r" "r ! i = NaN"
    using assms(3) by (auto simp: in_set_conv_nth)
  let ?r' = "put_cell cs c (to_datetime lib fmt (cell_at cs r c)) r"
  have "?r' ! i = NaN"
  proof (cases "cs ! i = c")
    case True
    then have "cell_at cs r c = r ! i"
      using assms i cell_at_nth[of cs r i] by simp
    then show ?thesis using assms i True by (simp add: nth_put_cell)
  next
    case False
    then show ?thesis using assms i by (simp add: nth_put_cell)
  qed
  moreover have "i < length ?r'" using assms i by (simp add: length_put_cell)
  ultimately show ?thesis by (metis nth_mem)
qed

lemma convert_row_keeps_NaN:
  "distinct cols \<Longrightarrow> length r = length cols \<Longrightarrow> NaN \<in> set r \<Longrightarrow>
   NaN \<in> set (convert_row lib cols cs r)"
proof (induction cs arbitrary: r)
  case Nil
  then show ?case by simp
next
  case (Cons c cs)
  then show ?case
    by (simp add: put_cell_keeps_NaN length_put_cell)
qed

lemma put_cell_has_value:
  assumes "length r = length cs" "c \<in> set cs"
  shows "v \<in> set (put_cell cs c v r)"
proof -
  obtain i where i: "i < length cs" "cs ! i = c"
    using assms(2) by (auto simp: in_set_conv_nth)
  then have "put_cell cs c v r ! i = v" using assms by (simp add: nth_put_cell)
  moreover have "i < length (put_cell cs c v r)" using assms i by (simp add: length_put_cell)
  ultimately show ?thesis by (metis nth_mem)
qed

lemma convert_row_bad_time:
  assumes "distinct cols" "length r = length cols" "set time_columns \<subseteq> set cols"
    and "to_datetime lib time_format (cell_at cols r ''arrival_time'') = NaN
         \<or> to_datetime lib time_format (cell_at cols r ''departure_time'') = NaN"
  shows "NaN \<in> set (convert_row lib cols time_columns r)"
proof -
  let ?r1 = "put_cell cols ''arrival_time'' (to_datetime lib time_format (cell_at cols r ''arrival_time'')) r"
  have cols: "''arrival_time'' \<in> set cols" "''departure_time'' \<in> set cols"
    using assms(3) by (simp_all add: time_columns_def)
  have len1: "length ?r1 = length cols" using assms by (simp add: length_put_cell)
  have dep: "cell_at cols ?r1 ''departure_time'' = cell_at cols r ''departure_time''"
    using assms cols by (simp add: cell_at_put_cell)
  from assms(4) show ?thesis
  proof
    assume "to_datetime lib time_format (cell_at cols r ''arrival_time'') = NaN"
    then have "NaN \<in> set ?r1"
      using put_cell_has_value[OF assms(2) cols(1), of "to_datetime lib time_format (cell_at cols r ''arrival_time'')"]
      by simp
    then show ?thesis
      using assms len1 by (simp add: time_columns_def put_cell_keeps_NaN)
  next
    assume "to_datetime lib time_format (cell_at cols r ''departure_time'') = NaN"
    then show ?thesis
      using put_cell_has_value[OF len1 cols(2), of NaN] dep by (simp add: time_columns_def)
  qed
qed

lemma filter_map_removeAll:
  "\<not> Q (f x) \<Longrightarrow> filter Q (map f (removeAll x xs)) = filter Q (map f xs)"
  by (induction xs) auto

lemma process_stop_times_without_row:
  assumes "NaN \<in> set (convert_row lib (columns df) time_columns r)"
  shows "process_stop_times lib (df\<lparr>rows := removeAll r (rows df)\<rparr>) = process_stop_times lib df"
  using assms by (simp add: process_stop_times_eq filter_map_removeAll)

lemma assemble_cong:
  "process_stop_times lib a = process_stop_times lib b \<Longrightarrow>
   assemble lib trips routes stops a = assemble lib trips routes stops b"
  by (simp add: assemble_def)

subsection \<open>Cells of changed rows\<close>

lemma map_of_zip_put_cell:
  "map_of (zip cs (put_cell cs c v r)) c' =
     (if c' = c then map_option (\<lambda>_. v) (map_of (zip cs r) c) else map_of (zip cs r) c')"
proof (induction cs arbitrary: r)
  case Nil
  show ?case by (simp add: put_cell_def)
next
  case (Cons a cs)
  show ?case
  proof (cases r)
    case Nil
    then show ?thesis by (simp add: put_cell_def)
  next
    case (Cons x xs)
    then show ?thesis using Cons.IH[of xs] by (auto simp: put_cell_def)
  qed
qed

lemma cell_at_put_cell_other: "c' \<noteq> c \<Longrightarrow> cell_at cs (put_cell cs c v r) c' = cell_at cs r c'"
  by (simp add: cell_at_def map_of_zip_put_cell)

lemma map_of_zip_Some: "length r = length cs \<Longrightarrow> c \<in> set cs \<Longrightarrow> \<exists>x. map_of (zip cs r) c = Some x"
  by (metis map_of_zip_is_Some)

lemma cell_at_put_cell_same:
  "length r = length cs \<Longrightarrow> c \<in> set cs \<Longrightarrow> cell_at cs (put_cell cs c v r) c = v"
  using map_of_zip_Some[of r cs c] by (auto simp: cell_at_def map_of_zip_put_cell)

lemma map_of_zip_append:
  "length a = length A \<Longrightarrow>
   map_of (zip (A @ B) (a @ b)) c =
     (case map_of (zip A a) c of Some v \<Rightarrow> Some v | None \<Rightarrow> map_of (zip B b) c)"
  by (simp add: map_add_def)

lemma map_of_zip_None: "c \<notin> set cs \<Longrightarrow> map_of (zip cs r) c = None"
  by (auto simp: map_of_eq_None_iff dest: set_zip_leftD)

lemma length_with_cell:
  "length r = length cs \<Longrightarrow> length (with_cell cs c v r) = length (with_column cs c)"
  by (simp add: with_cell_def with_column_def put_cell_def)

lemma cell_at_with_cell:
  assumes "length r = length cs"
  shows "cell_at (with_column cs c) (with_cell cs c v r) c' = (if c' = c then v else cell_at cs r c')"
proof (cases "c \<in> set cs")
  case True
  then show ?thesis
    using assms by (simp add: with_cell_def with_column_def cell_at_put_cell_same cell_at_put_cell_other)
next
  case False
  then show ?thesis
    using assms
    by (auto simp: with_cell_def with_column_def cell_at_def map_of_zip_append map_of_zip_None
        split: option.splits)
qed

lemma set_column_rows:
  "set_column df c (map g (rows df)) =
     df\<lparr>columns := with_column (columns df) c,
        rows := map (\<lambda>r. with_cell (columns df) c (g r) r) (rows df)\<rparr>"
  by (simp add: set_column_def with_column_def with_cell_def zip_map_same o_def)

lemma traverse_Inr:
  "traverse f xs = Inr ys \<Longrightarrow> ys = map (\<lambda>x. projr (f x)) xs \<and> (\<forall>x \<in> set xs. \<not> isl (f x))"
proof (induction xs arbitrary: ys)
  case Nil
  then show ?case by simp
next
  case (Cons x xs)
  then show ?case by (auto split: sum.splits)
qed

lemma traverse_Inl:
  "traverse f xs = Inl e \<Longrightarrow> \<exists>x \<in> set xs. f x = Inl e"
proof (induction xs)
  case Nil
  then show ?case by simp
next
  case (Cons x xs)
  then show ?case by (auto split: sum.splits)
qed

lemma traverse_map_Inr:
  "(\<And>x. x \<in> set xs \<Longrightarrow> f x = Inr (g x)) \<Longrightarrow> traverse f xs = Inr (map g xs)"
  by (induction xs) simp_all

subsection \<open>Frames keep full rows\<close>

lemma full_rows_set_column:
  "full_rows df \<Longrightarrow> full_rows (set_column df c (map g (rows df)))"
  by (simp add: set_column_rows full_rows_def length_with_cell)

lemma full_rows_filter: "full_rows df \<Longrightarrow> full_rows (df\<lparr>rows := filter P (rows df)\<rparr>)"
  by (simp add: full_rows_def)

lemma length_convert_row:
  "length r = length cols \<Longrightarrow> length (convert_row lib cols cs r) = length cols"
  by (induction cs arbitrary: r) (simp_all add: length_put_cell)

lemma full_rows_process_stop_times:
  "full_rows df \<Longrightarrow> process_stop_times lib df = Inr df' \<Longrightarrow> full_rows df' \<and> columns df' = columns df"
  by (auto simp: process_stop_times_eq full_rows_def length_convert_row split: if_splits)

lemma length_without_key:
  "length r = length cs \<Longrightarrow> length (without_key cs k r) = length (filter (\<lambda>c. c \<noteq> k) cs)"
proof (induction cs arbitrary: r)
  case Nil
  then show ?case by (simp add: without_key_def)
next
  case (Cons a cs)
  then obtain x xs where r: "r = x # xs" by (cases r) auto
  with Cons show ?case by (simp add: without_key_def)
qed

lemma merge_rows:
  assumes "merge l r k = Inr t" "row \<in> set (rows t)"
  shows "\<exists>lr \<in> set (rows l). \<exists>rr \<in> set (rows r).
           row = lr @ without_key (columns r) k rr
           \<and> key_eq (cell_at (columns l) lr k) (cell_at (columns r) rr k)"
proof -
  have "rows t = concat (map (\<lambda>lr.
                         map (\<lambda>rr. lr @ without_key (columns r) k rr)
                             (filter (\<lambda>rr. key_eq (cell_at (columns l) lr k) (cell_at (columns r) rr k))
                                     (rows r)))
                         (rows l))"
    using assms(1) by (auto simp: merge_def split: if_splits)
  with assms(2) show ?thesis by auto
qed

lemma merge_columns:
  assumes "merge l r k = Inr t"
  shows "columns t = map (suffix_left (columns r) k) (columns l)
                      @ map (suffix_right (columns l) k) (filter (\<lambda>c. c \<noteq> k) (columns r))"
    and "k \<in> set (columns l)" and "k \<in> set (columns r)"
  using assms by (auto simp: merge_def split: if_splits)

lemma full_rows_merge:
  assumes "full_rows l" "full_rows r" "merge l r k = Inr t"
  shows "full_rows t"
  unfolding full_rows_def
proof
  fix row assume "row \<in> set (rows t)"
  then obtain lr rr where "lr \<in> set (rows l)" "rr \<in> set (rows r)"
      "row = lr @ without_key (columns r) k rr"
    using merge_rows[OF assms(3)] by blast
  then show "length row = length (columns t)"
    using assms(1,2) by (simp add: merge_columns(1)[OF assms(3)] full_rows_def length_without_key)
qed

lemma numeric_column_Inr:
  assumes "numeric_column lib df c = Inr df'"
  shows "c \<in> set (columns df)"
    and "df' = set_column df c (map (\<lambda>r. projr (to_numeric lib (cell_at (columns df) r c))) (rows df))"
  using assms
  by (auto simp: numeric_column_def get_column_def ebind_Inr_iff o_def split: if_splits dest!: traverse_Inr)


lemma subway_rows_Inr:
  assumes "subway_rows final = Inr metro0"
  shows "''route_type'' \<in> set (columns final)"
    and "columns metro0 = columns final"
    and "rows metro0 = filter (\<lambda>r. is_one (cell_at (columns final) r ''route_type'')) (rows final)"
  using assms by (auto simp: subway_rows_def split: if_splits)

lemma full_rows_numeric_column:
  "full_rows df \<Longrightarrow> numeric_column lib df c = Inr df' \<Longrightarrow> full_rows df'"
  using numeric_column_Inr(2)[of lib df c df'] full_rows_set_column[of df c] by simp

lemma full_rows_subway_rows:
  "full_rows df \<Longrightarrow> subway_rows df = Inr df' \<Longrightarrow> full_rows df'"
  by (auto simp: subway_rows_def full_rows_def split: if_splits)

lemma seconds_since_epoch_Inr:
  "\<not> isl (seconds_since_epoch v) \<Longrightarrow>
   \<exists>d. v = Timestamp d \<and> projr (seconds_since_epoch v) = IntV (total_seconds d epoch)"
  by (cases v) (simp_all add: seconds_since_epoch_def)

lemma assemble_Inr:
  assumes "assemble lib trips routes stops stop_times0 = Inr metro"
  obtains stop_times tripsandroutes final_stops0 final_stops1 final_stops final metro0 where
    "process_stop_times lib stop_times0 = Inr stop_times"
    "merge trips routes ''route_id'' = Inr tripsandroutes"
    "merge stop_times stops ''stop_id'' = Inr final_stops0"
    "numeric_column lib final_stops0 ''stop_lat'' = Inr final_stops1"
    "numeric_column lib final_stops1 ''stop_lon'' = Inr final_stops"
    "merge final_stops tripsandroutes ''trip_id'' = Inr final"
    "subway_rows final = Inr metro0"
    "\<forall>r \<in> set (rows metro0). \<not> isl (seconds_since_epoch (cell_at (columns metro0) r ''arrival_time''))"
    "metro = set_column
               (set_column metro0 ''arrival_time_int''
                  (map (\<lambda>r. projr (seconds_since_epoch (cell_at (columns metro0) r ''arrival_time'')))
                       (rows metro0)))
               ''elevation'' (map (\<lambda>r. IntV 0) (rows metro0))"
proof -
  from assms obtain stop_times tripsandroutes final_stops0 final_stops1 final_stops final metro0
      arrivals secs where
    steps: "process_stop_times lib stop_times0 = Inr stop_times"
      "merge trips routes ''route_id'' = Inr tripsandroutes"
      "merge stop_times stops ''stop_id'' = Inr final_stops0"
      "numeric_column lib final_stops0 ''stop_lat'' = Inr final_stops1"
      "numeric_column lib final_stops1 ''stop_lon'' = Inr final_stops"
      "merge final_stops tripsandroutes ''trip_id'' = Inr final"
      "subway_rows final = Inr metro0"
    and arr: "get_column metro0 ''arrival_time'' = Inr arrivals"
    and secs: "traverse seconds_since_epoch arrivals = Inr secs"
    and metro: "metro = set_column (set_column metro0 ''arrival_time_int'' secs) ''elevation''
                          (map (\<lambda>r. IntV 0) (rows metro0))"
    unfolding assemble_def ebind_Inr_iff by blast
  from arr have arrivals: "arrivals = map (\<lambda>r. cell_at (columns metro0) r ''arrival_time'') (rows metro0)"
    by (auto simp: get_column_def split: if_splits)
  from traverse_Inr[OF secs] have
    "secs = map (\<lambda>r. projr (seconds_since_epoch (cell_at (columns metro0) r ''arrival_time''))) (rows metro0)"
    "\<forall>r \<in> set (rows metro0). \<not> isl (seconds_since_epoch (cell_at (columns metro0) r ''arrival_time''))"
    by (simp_all add: arrivals o_def)
  with steps metro that show thesis by blast
qed

subsection \<open>Invariants of the assembled frame\<close>



















text \<open>The cells of a row of the metro frame, read through the two added columns.\<close>

lemma metro_row_cell:
  assumes "length r = length cs"
  shows "cell_at (with_column (with_column cs ''arrival_time_int'') ''elevation'')
           (with_cell (with_column cs ''arrival_time_int'') ''elevation'' (IntV 0)
              (with_cell cs ''arrival_time_int'' v r)) c
         = (if c = ''elevation'' then IntV 0 else if c = ''arrival_time_int'' then v else cell_at cs r c)"
  using assms by (simp add: cell_at_with_cell length_with_cell)

subsection \<open>Features of a line\<close>

lemma set_unique: "set (unique xs) = set xs"
  by (simp add: unique_def)

lemma distinct_unique: "distinct (unique xs)"
  by (simp add: unique_def)

lemma set_insert_key: "set (insert_key k xs) = insert k (set xs)"
  by (induction xs) auto

lemma set_sort_keys: "set (sort_keys xs) = set xs"
  by (induction xs) (simp_all add: set_insert_key)



lemma distinct_singleton: "distinct xs \<Longrightarrow> set xs = {k} \<Longrightarrow> xs = [k]"
proof (cases xs)
  case Nil
  assume "set xs = {k}"
  with Nil show ?thesis by simp
next
  case (Cons a ys)
  assume d: "distinct xs" and s: "set xs = {k}"
  from s Cons have a: "a = k" by auto
  from s Cons a have "set ys \<subseteq> {k}" by auto
  moreover from d Cons a have "k \<notin> set ys" by simp
  ultimately have "ys = []" by (cases ys) auto
  with Cons a show ?thesis by simp
qed

lemma unique_constant: "xs \<noteq> [] \<Longrightarrow> \<forall>x \<in> set xs. x = k \<Longrightarrow> unique xs = [k]"
proof -
  assume "xs \<noteq> []" and all: "\<forall>x \<in> set xs. x = k"
  then have "set xs = {k}" by (cases xs) auto
  then show ?thesis
    using distinct_singleton[OF distinct_unique, of xs k] by (simp add: set_unique)
qed

lemma zip4_map:
  "zip (map f xs) (zip (map g xs) (zip (map h xs) (map i xs))) = map (\<lambda>x. (f x, g x, h x, i x)) xs"
  by (induction xs) simp_all

lemma trip_feature_Inr:
  assumes "\<not> isl (trip_feature td)"
  shows "projr (trip_feature td) =
           \<lparr>geometry = map (point (columns td)) (rows td),
            trip = unique (map (\<lambda>r. cell_at (columns td) r ''trip_id'') (rows td)),
            stop = unique (map (\<lambda>r. cell_at (columns td) r ''stop_id'') (rows td)),
            route = unique (map (\<lambda>r. cell_at (columns td) r ''route_short_name'') (rows td))\<rparr>"
  using assms
  by (simp add: trip_feature_def get_attr_def zip4_map point_def split: if_splits)

lemma create_geojson_features_Inr:
  assumes "create_geojson_features df line = Inr features"
  shows "features = map (trip_feature_of df line) (trip_keys df line)"
proof -
  let ?line_df = "df\<lparr>rows := line_rows df line\<rparr>"
  from assms obtain trips_dict where
    g: "groupby ?line_df ''trip_id'' = Inr trips_dict"
    and t: "traverse (\<lambda>(trip_id, trip_data). trip_feature trip_data) trips_dict = Inr features"
    by (auto simp: create_geojson_features_def line_rows_def Let_def ebind_Inr_iff split: if_splits)
  from g have dict: "trips_dict = map (\<lambda>k. (k, df\<lparr>rows := trip_rows df line k\<rparr>)) (trip_keys df line)"
    by (auto simp: groupby_def trip_keys_def trip_rows_def split: if_splits)
  from traverse_Inr[OF t] have
    f: "features = map (\<lambda>x. projr (case x of (trip_id, trip_data) \<Rightarrow> trip_feature trip_data)) trips_dict"
    and ok: "\<forall>x \<in> set trips_dict. \<not> isl (case x of (trip_id, trip_data) \<Rightarrow> trip_feature trip_data)"
    by simp_all
  have "\<forall>k \<in> set (trip_keys df line). \<not> isl (trip_feature (df\<lparr>rows := trip_rows df line k\<rparr>))"
    using ok by (simp add: dict)
  then have "\<forall>k \<in> set (trip_keys df line).
               projr (trip_feature (df\<lparr>rows := trip_rows df line k\<rparr>)) = trip_feature_of df line k"
    by (simp add: trip_feature_Inr trip_feature_of_def)
  then show ?thesis
    by (simp add: f dict o_def)
qed

lemma trip_keys_set:
  "set (trip_keys df line) = {k. k \<noteq> NaN \<and> trip_rows df line k \<noteq> []}"
  by (auto simp: trip_keys_def trip_rows_def set_sort_keys set_unique filter_empty_conv)


lemma trip_of_feature:
  assumes "k \<in> set (trip_keys df line)"
  shows "trip (trip_feature_of df line k) = [k]"
proof -
  have "trip_rows df line k \<noteq> []"
    using assms by (simp add: trip_keys_set)
  moreover have "\<forall>r \<in> set (trip_rows df line k). cell_at (columns df) r ''trip_id'' = k"
    by (simp add: trip_rows_def)
  ultimately show ?thesis
    by (simp add: trip_feature_of_def unique_constant)
qed

subsection \<open>Files written by the loop over the lines\<close>

lemma save_geojson_file_cases:
  "save_geojson_file features p fs = (Inl ValueError, fs(p \<mapsto> PartialFile))
   \<or> save_geojson_file features p fs = (Inr (), fs(p \<mapsto> GeoJsonFile features))"
  by (simp add: save_geojson_file_def)

lemma process_lines_step:
  "process_lines lib df out (line # lines) fs =
     (case create_geojson_features df line of
        Inl e \<Rightarrow> (Inl e, fs)
      | Inr features \<Rightarrow>
          if \<exists>f \<in> set features. NaN \<in> set (feature_cells f)
          then (Inl ValueError, fs(output_file lib out line \<mapsto> PartialFile))
          else process_lines lib df out lines (fs(output_file lib out line \<mapsto> GeoJsonFile features)))"
  by (simp add: save_geojson_file_def split: sum.splits)

lemma process_lines_files:
  "process_lines lib df out lines fs = (res, fs') \<Longrightarrow> fs' p \<noteq> fs p \<Longrightarrow>
   fs' p = Some PartialFile
   \<or> (\<exists>line \<in> set lines. \<exists>features. create_geojson_features df line = Inr features
         \<and> fs' p = Some (GeoJsonFile features) \<and> p = output_file lib out line)"
proof (induction lines arbitrary: fs)
  case Nil
  then show ?case by simp
next
  case (Cons line lines)
  show ?case
  proof (cases "create_geojson_features df line")
    case (Inl e)
    with Cons.prems show ?thesis by (simp add: process_lines_step del: process_lines.simps)
  next
    case (Inr features)
    show ?thesis
    proof (cases "\<exists>f \<in> set features. NaN \<in> set (feature_cells f)")
      case True
      with Inr Cons.prems have "fs' = fs(output_file lib out line \<mapsto> PartialFile)"
        by (simp add: process_lines_step del: process_lines.simps)
      with Cons.prems(2) show ?thesis by (auto split: if_splits)
    next
      case False
      let ?fs1 = "fs(output_file lib out line \<mapsto> GeoJsonFile features)"
      from False Inr Cons.prems have rest: "process_lines lib df out lines ?fs1 = (res, fs')"
        by (simp add: process_lines_step del: process_lines.simps)
      show ?thesis
      proof (cases "fs' p = ?fs1 p")
        case True
        with Cons.prems(2) have "p = output_file lib out line"
          by (auto split: if_splits)
        with True Inr show ?thesis by auto
      next
        case False
        from Cons.IH[OF rest False] show ?thesis by auto
      qed
    qed
  qed
qed


lemma create_geojson_file_main_cases:
  "create_geojson_file_main lib cwd fs =
     (case load_metro_data fs (path_join (path_join cwd ''data'') ''metro_data.csv'') of
        Inl e \<Rightarrow> (Inl e, fs)
      | Inr df \<Rightarrow>
          (case get_column df ''route_short_name'' of
             Inl e \<Rightarrow> (Inl e, fs)
           | Inr names \<Rightarrow> process_lines lib df (path_join cwd ''geojson'') (unique names) fs))"
  by (simp add: create_geojson_file_main_def Let_def)

subsection \<open>Cells of merged rows\<close>

lemma plain_not_suffixed:
  assumes "plain c"
  shows "c' @ ''_x'' \<noteq> c \<and> c' @ ''_y'' \<noteq> c"
proof -
  have "last (c' @ ''_x'') = CHR ''x''" "last (c' @ ''_y'') = CHR ''y''"
    by simp_all
  moreover have "c' @ ''_x'' \<noteq> []" "c' @ ''_y'' \<noteq> []"
    by simp_all
  ultimately show ?thesis
    using assms unfolding plain_def by metis
qed

lemma suffix_left_plain:
  "plain c \<Longrightarrow> suffix_left rc k c' = c \<longleftrightarrow> c' = c \<and> (c = k \<or> c \<notin> set rc)"
  using plain_not_suffixed[of c c'] by (auto simp: suffix_left_def)

lemma suffix_right_plain:
  "plain c \<Longrightarrow> suffix_right lc k c' = c \<longleftrightarrow> c' = c \<and> (c = k \<or> c \<notin> set lc)"
  using plain_not_suffixed[of c c'] by (auto simp: suffix_right_def)

lemma in_suffix_left:
  assumes "plain c"
  shows "c \<in> suffix_left rc k ` S \<longleftrightarrow> c \<in> S \<and> (c = k \<or> c \<notin> set rc)"
proof
  assume "c \<in> suffix_left rc k ` S"
  then obtain c' where c': "c' \<in> S" "suffix_left rc k c' = c"
    by (auto simp: image_iff)
  from c'(2) have "c' = c \<and> (c = k \<or> c \<notin> set rc)"
    by (simp only: suffix_left_plain[OF assms])
  with c'(1) show "c \<in> S \<and> (c = k \<or> c \<notin> set rc)"
    by simp
next
  assume a: "c \<in> S \<and> (c = k \<or> c \<notin> set rc)"
  then have "suffix_left rc k c = c"
    by (simp only: suffix_left_plain[OF assms])
  then have eq: "c = suffix_left rc k c"
    by (rule sym)
  from a have "c \<in> S"
    by (rule conjunct1)
  with eq show "c \<in> suffix_left rc k ` S"
    by (rule image_eqI)
qed

lemma in_suffix_right:
  assumes "plain c"
  shows "c \<in> suffix_right lc k ` S \<longleftrightarrow> c \<in> S \<and> (c = k \<or> c \<notin> set lc)"
proof
  assume "c \<in> suffix_right lc k ` S"
  then obtain c' where c': "c' \<in> S" "suffix_right lc k c' = c"
    by (auto simp: image_iff)
  from c'(2) have "c' = c \<and> (c = k \<or> c \<notin> set lc)"
    by (simp only: suffix_right_plain[OF assms])
  with c'(1) show "c \<in> S \<and> (c = k \<or> c \<notin> set lc)"
    by simp
next
  assume a: "c \<in> S \<and> (c = k \<or> c \<notin> set lc)"
  then have "suffix_right lc k c = c"
    by (simp only: suffix_right_plain[OF assms])
  then have eq: "c = suffix_right lc k c"
    by (rule sym)
  from a have "c \<in> S"
    by (rule conjunct1)
  with eq show "c \<in> suffix_right lc k ` S"
    by (rule image_eqI)
qed

lemma map_of_zip_rename:
  "(\<And>c'. c' \<in> set cs \<Longrightarrow> f c' = c \<longleftrightarrow> c' = c) \<Longrightarrow>
   map_of (zip (map f cs) r) c = map_of (zip cs r) c"
proof (induction cs arbitrary: r)
  case Nil
  then show ?case by simp
next
  case (Cons a cs)
  show ?case
  proof (cases r)
    case Nil
    then show ?thesis by simp
  next
    case (Cons x xs)
    have "map_of (zip (map f cs) xs) c = map_of (zip cs xs) c"
      using Cons.prems by (intro Cons.IH) simp
    moreover have "f a = c \<longleftrightarrow> a = c"
      using Cons.prems by simp
    ultimately show ?thesis
      using Cons by auto
  qed
qed

lemma map_of_zip_without_key:
  "map_of (zip (filter (\<lambda>c. c \<noteq> k) cs) (without_key cs k r)) c
     = (if c = k then None else map_of (zip cs r) c)"
proof (induction cs arbitrary: r)
  case Nil
  then show ?case by (simp add: without_key_def)
next
  case (Cons a cs)
  show ?case
  proof (cases r)
    case Nil
    then show ?thesis by (simp add: without_key_def map_of_zip_None)
  next
    case (Cons x xs)
    then show ?thesis
      using Cons.IH[of xs] by (auto simp: without_key_def)
  qed
qed

lemma merge_has_column:
  assumes "merge l r k = Inr t" "plain c"
  shows "c \<in> set (columns t) \<longleftrightarrow>
           (c \<in> set (columns l) \<and> (c = k \<or> c \<notin> set (columns r)))
           \<or> (c \<in> set (columns r) \<and> c \<noteq> k \<and> c \<notin> set (columns l))"
proof -
  have "set (columns t) = suffix_left (columns r) k ` set (columns l)
          \<union> suffix_right (columns l) k ` {c \<in> set (columns r). c \<noteq> k}"
    by (simp add: merge_columns(1)[OF assms(1)])
  then show ?thesis
    using in_suffix_left[OF assms(2)] in_suffix_right[OF assms(2)] by auto
qed

lemma merge_cell_left:
  assumes "merge l r k = Inr t" and "plain c" and "c \<in> set (columns l)"
    and "c = k \<or> c \<notin> set (columns r)" and "length lr = length (columns l)"
  shows "cell_at (columns t) (lr @ rest) c = cell_at (columns l) lr c"
proof -
  let ?A = "map (suffix_left (columns r) k) (columns l)"
  let ?B = "map (suffix_right (columns l) k) (filter (\<lambda>c. c \<noteq> k) (columns r))"
  have same: "map_of (zip ?A lr) c = map_of (zip (columns l) lr) c"
  proof (rule map_of_zip_rename)
    fix c' assume "c' \<in> set (columns l)"
    show "suffix_left (columns r) k c' = c \<longleftrightarrow> c' = c"
      using assms(4) suffix_left_plain[OF assms(2), of "columns r" k c'] by blast
  qed
  obtain v where v: "map_of (zip (columns l) lr) c = Some v"
    using map_of_zip_Some[OF assms(5,3)] by blast
  have "length lr = length ?A"
    using assms(5) by simp
  then have "map_of (zip (?A @ ?B) (lr @ rest)) c
          = (case map_of (zip ?A lr) c of Some v \<Rightarrow> Some v | None \<Rightarrow> map_of (zip ?B rest) c)"
    by (rule map_of_zip_append)
  then have "map_of (zip (columns t) (lr @ rest)) c = Some v"
    by (simp only: merge_columns(1)[OF assms(1)] same v option.case)
  then show ?thesis
    by (simp only: cell_at_def v)
qed

lemma merge_cell_right:
  assumes "merge l r k = Inr t" and "plain c" and "c \<noteq> k" and "c \<notin> set (columns l)"
    and "length lr = length (columns l)"
  shows "cell_at (columns t) (lr @ without_key (columns r) k rr) c = cell_at (columns r) rr c"
proof -
  let ?A = "map (suffix_left (columns r) k) (columns l)"
  let ?B = "map (suffix_right (columns l) k) (filter (\<lambda>c. c \<noteq> k) (columns r))"
  let ?w = "without_key (columns r) k rr"
  have "c \<notin> set ?A"
    using assms(4) in_suffix_left[OF assms(2), of "columns r" k "set (columns l)"] by simp
  then have none: "map_of (zip ?A lr) c = None"
    by (rule map_of_zip_None)
  have "map_of (zip ?B ?w) c = map_of (zip (filter (\<lambda>c. c \<noteq> k) (columns r)) ?w) c"
  proof (rule map_of_zip_rename)
    fix c' assume "c' \<in> set (filter (\<lambda>c. c \<noteq> k) (columns r))"
    show "suffix_right (columns l) k c' = c \<longleftrightarrow> c' = c"
      using assms(4) suffix_right_plain[OF assms(2), of "columns l" k c'] by blast
  qed
  also have "\<dots> = map_of (zip (columns r) rr) c"
    using assms(3) by (simp add: map_of_zip_without_key)
  finally have right: "map_of (zip ?B ?w) c = map_of (zip (columns r) rr) c" .
  have "length lr = length ?A"
    using assms(5) by simp
  then have "map_of (zip (?A @ ?B) (lr @ ?w)) c
          = (case map_of (zip ?A lr) c of Some v \<Rightarrow> Some v | None \<Rightarrow> map_of (zip ?B ?w) c)"
    by (rule map_of_zip_append)
  then have "map_of (zip (columns t) (lr @ ?w)) c = map_of (zip (columns r) rr) c"
    by (simp only: merge_columns(1)[OF assms(1)] none right option.case)
  then show ?thesis
    by (simp only: cell_at_def)
qed

text \<open>A row of a merge, with the rows it comes from and the cells it takes from them.\<close>

lemma merge_row_cells:
  assumes "merge l r k = Inr t" and "full_rows l" and "row \<in> set (rows t)" and "plain k"
  obtains lr rr where "lr \<in> set (rows l)" and "rr \<in> set (rows r)"
    and "key_eq (cell_at (columns l) lr k) (cell_at (columns r) rr k)"
    and "cell_at (columns t) row k = cell_at (columns l) lr k"
    and "\<And>c. plain c \<Longrightarrow> c \<in> set (columns l) \<Longrightarrow> c \<notin> set (columns r) \<Longrightarrow>
           cell_at (columns t) row c = cell_at (columns l) lr c"
    and "\<And>c. plain c \<Longrightarrow> c \<noteq> k \<Longrightarrow> c \<notin> set (columns l) \<Longrightarrow>
           cell_at (columns t) row c = cell_at (columns r) rr c"
proof -
  from merge_rows[OF assms(1,3)] obtain lr rr where
    lr: "lr \<in> set (rows l)" and rr: "rr \<in> set (rows r)"
    and row: "row = lr @ without_key (columns r) k rr"
    and key: "key_eq (cell_at (columns l) lr k) (cell_at (columns r) rr k)"
    by blast
  have len: "length lr = length (columns l)"
    using assms(2) lr by (simp add: full_rows_def)
  have kl: "k \<in> set (columns l)"
    by (rule merge_columns(2)[OF assms(1)])
  have kk: "k = k \<or> k \<notin> set (columns r)"
    by simp
  have k: "cell_at (columns t) row k = cell_at (columns l) lr k"
    unfolding row by (rule merge_cell_left[OF assms(1,4) kl kk len])
  have left: "cell_at (columns t) row c = cell_at (columns l) lr c"
    if "plain c" "c \<in> set (columns l)" "c \<notin> set (columns r)" for c
    unfolding row by (rule merge_cell_left[OF assms(1) that(1,2) disjI2[OF that(3)] len])
  have right: "cell_at (columns t) row c = cell_at (columns r) rr c"
    if "plain c" "c \<noteq> k" "c \<notin> set (columns l)" for c
    unfolding row by (rule merge_cell_right[OF assms(1) that len])
  show thesis
    by (rule that[OF lr rr key k left right])
qed

subsection \<open>The frames of the Assembler, step by step\<close>

lemma numeric_column_frame:
  assumes "numeric_column lib df c = Inr df'"
  shows "columns df' = columns df"
    and "rows df' = map (\<lambda>r. with_cell (columns df) c
                              (projr (to_numeric lib (cell_at (columns df) r c))) r) (rows df)"
proof -
  have c: "c \<in> set (columns df)"
    using assms by (rule numeric_column_Inr(1))
  have "df' = df\<lparr>columns := with_column (columns df) c,
                  rows := map (\<lambda>r. with_cell (columns df) c
                              (projr (to_numeric lib (cell_at (columns df) r c))) r) (rows df)\<rparr>"
    unfolding numeric_column_Inr(2)[OF assms] by (rule set_column_rows)
  then show "columns df' = columns df"
    and "rows df' = map (\<lambda>r. with_cell (columns df) c
                              (projr (to_numeric lib (cell_at (columns df) r c))) r) (rows df)"
    using c by (simp_all add: with_column_def)
qed

lemma numeric_column_cell:
  assumes "numeric_column lib df c = Inr df'" and "full_rows df" and "row' \<in> set (rows df')"
  obtains row where "row \<in> set (rows df)"
    and "\<And>c'. c' \<noteq> c \<Longrightarrow> cell_at (columns df') row' c' = cell_at (columns df) row c'"
proof -
  have c: "c \<in> set (columns df)"
    using assms(1) by (rule numeric_column_Inr(1))
  from assms(3) obtain row where row: "row \<in> set (rows df)"
    and row': "row' = with_cell (columns df) c (projr (to_numeric lib (cell_at (columns df) row c))) row"
    unfolding numeric_column_frame(2)[OF assms(1)] by auto
  have len: "length row = length (columns df)"
    using assms(2) row by (simp add: full_rows_def)
  have "cell_at (columns df') row' c' = cell_at (columns df) row c'" if "c' \<noteq> c" for c'
    using cell_at_with_cell[OF len, of c _ c'] that c
    by (simp add: row' numeric_column_frame(1)[OF assms(1)] with_column_def)
  with row show thesis
    by (rule that)
qed

lemma to_datetime_cases:
  "to_datetime lib fmt v = NaN \<or> (\<exists>d. to_datetime lib fmt v = Timestamp d)"
  by (auto simp: to_datetime_def split: cell.splits option.splits)

lemma cell_at_mem:
  assumes "length r = length cs" and "c \<in> set cs"
  shows "cell_at cs r c \<in> set r"
proof -
  obtain x where x: "map_of (zip cs r) c = Some x"
    using map_of_zip_Some[OF assms] by blast
  then have "(c, x) \<in> set (zip cs r)"
    by (rule map_of_SomeD)
  then have "x \<in> set r"
    by (rule set_zip_rightD)
  then show ?thesis
    by (simp add: cell_at_def x)
qed

lemma process_stop_times_frame:
  assumes "process_stop_times lib df = Inr df'"
  shows "columns df' = columns df"
    and "set time_columns \<subseteq> set (columns df)"
    and "rows df' = filter (\<lambda>r. NaN \<notin> set r) (map (convert_row lib (columns df) time_columns) (rows df))"
  using assms by (auto simp: process_stop_times_eq split: if_splits)

text \<open>Both time cells of a row that the preprocessing keeps are timestamps.\<close>

lemma process_stop_times_timestamps:
  assumes "process_stop_times lib df = Inr df'" and "full_rows df" and "r \<in> set (rows df')"
  shows "(\<exists>d. cell_at (columns df') r ''arrival_time'' = Timestamp d)
       \<and> (\<exists>d. cell_at (columns df') r ''departure_time'' = Timestamp d)"
proof -
  let ?cs = "columns df"
  have cols: "''arrival_time'' \<in> set ?cs" "''departure_time'' \<in> set ?cs"
    using process_stop_times_frame(2)[OF assms(1)] by (simp_all add: time_columns_def)
  from assms(3) obtain r0 where r0: "r0 \<in> set (rows df)"
    and r: "r = convert_row lib ?cs time_columns r0" and nonan: "NaN \<notin> set r"
    unfolding process_stop_times_frame(3)[OF assms(1)] by auto
  have len0: "length r0 = length ?cs"
    using assms(2) r0 by (simp add: full_rows_def)
  let ?r1 = "put_cell ?cs ''arrival_time'' (to_datetime lib time_format (cell_at ?cs r0 ''arrival_time'')) r0"
  have len1: "length ?r1 = length ?cs"
    using len0 by (rule length_put_cell)
  have r2: "r = put_cell ?cs ''departure_time''
                  (to_datetime lib time_format (cell_at ?cs ?r1 ''departure_time'')) ?r1"
    by (simp add: r time_columns_def)
  have len: "length r = length ?cs"
    unfolding r2 using len1 by (rule length_put_cell)
  have dep: "cell_at ?cs r ''departure_time''
               = to_datetime lib time_format (cell_at ?cs ?r1 ''departure_time'')"
    unfolding r2 using len1 cols(2) by (rule cell_at_put_cell_same)
  have "cell_at ?cs r ''arrival_time'' = cell_at ?cs ?r1 ''arrival_time''"
    unfolding r2 by (rule cell_at_put_cell_other) simp
  also have "\<dots> = to_datetime lib time_format (cell_at ?cs r0 ''arrival_time'')"
    using len0 cols(1) by (rule cell_at_put_cell_same)
  finally have arr: "cell_at ?cs r ''arrival_time''
               = to_datetime lib time_format (cell_at ?cs r0 ''arrival_time'')" .
  have "cell_at ?cs r ''arrival_time'' \<noteq> NaN" "cell_at ?cs r ''departure_time'' \<noteq> NaN"
    using cell_at_mem[OF len cols(1)] cell_at_mem[OF len cols(2)] nonan by auto
  then have "(\<exists>d. cell_at ?cs r ''arrival_time'' = Timestamp d)
       \<and> (\<exists>d. cell_at ?cs r ''departure_time'' = Timestamp d)"
    using to_datetime_cases[of lib time_format "cell_at ?cs r0 ''arrival_time''"]
      to_datetime_cases[of lib time_format "cell_at ?cs ?r1 ''departure_time''"]
    unfolding arr dep by blast
  then show ?thesis
    by (simp only: process_stop_times_frame(1)[OF assms(1)])
qed

text \<open>
  All frames of \<open>assemble\<close> at once, for inputs with full rows: each step, the full rows
  of each frame, and the rows of the metro frame as made from those of the filtered frame.
\<close>

lemma assemble_pipeline:
  assumes "assemble lib trips routes stops stop_times0 = Inr metro"
    and "full_rows trips" "full_rows routes" "full_rows stops" "full_rows stop_times0"
  obtains stop_times tripsandroutes final_stops0 final_stops1 final_stops final metro0 where
    "process_stop_times lib stop_times0 = Inr stop_times"
    "merge trips routes ''route_id'' = Inr tripsandroutes"
    "merge stop_times stops ''stop_id'' = Inr final_stops0"
    "numeric_column lib final_stops0 ''stop_lat'' = Inr final_stops1"
    "numeric_column lib final_stops1 ''stop_lon'' = Inr final_stops"
    "merge final_stops tripsandroutes ''trip_id'' = Inr final"
    "subway_rows final = Inr metro0"
    "full_rows stop_times \<and> full_rows tripsandroutes \<and> full_rows final_stops0
       \<and> full_rows final_stops1 \<and> full_rows final_stops \<and> full_rows final \<and> full_rows metro0"
    "columns metro = with_column (with_column (columns metro0) ''arrival_time_int'') ''elevation''"
    "rows metro =
       map (\<lambda>r. with_cell (with_column (columns metro0) ''arrival_time_int'') ''elevation'' (IntV 0)
                  (with_cell (columns metro0) ''arrival_time_int''
                     (projr (seconds_since_epoch (cell_at (columns metro0) r ''arrival_time''))) r))
           (rows metro0)"
    "\<forall>r \<in> set (rows metro0). \<not> isl (seconds_since_epoch (cell_at (columns metro0) r ''arrival_time''))"
proof -
  from assms(1) obtain stop_times tripsandroutes final_stops0 final_stops1 final_stops final metro0 where
    steps: "process_stop_times lib stop_times0 = Inr stop_times"
      "merge trips routes ''route_id'' = Inr tripsandroutes"
      "merge stop_times stops ''stop_id'' = Inr final_stops0"
      "numeric_column lib final_stops0 ''stop_lat'' = Inr final_stops1"
      "numeric_column lib final_stops1 ''stop_lon'' = Inr final_stops"
      "merge final_stops tripsandroutes ''trip_id'' = Inr final"
      "subway_rows final = Inr metro0"
    and ok: "\<forall>r \<in> set (rows metro0). \<not> isl (seconds_since_epoch (cell_at (columns metro0) r ''arrival_time''))"
    and metro: "metro = set_column
               (set_column metro0 ''arrival_time_int''
                  (map (\<lambda>r. projr (seconds_since_epoch (cell_at (columns metro0) r ''arrival_time'')))
                       (rows metro0)))
               ''elevation'' (map (\<lambda>r. IntV 0) (rows metro0))"
    by (rule assemble_Inr)
  have f1: "full_rows stop_times"
    using full_rows_process_stop_times[OF assms(5) steps(1)] by simp
  have f2: "full_rows tripsandroutes"
    using assms(2,3) steps(2) by (rule full_rows_merge)
  have f3: "full_rows final_stops0"
    using f1 assms(4) steps(3) by (rule full_rows_merge)
  have f4: "full_rows final_stops1"
    using f3 steps(4) by (rule full_rows_numeric_column)
  have f5: "full_rows final_stops"
    using f4 steps(5) by (rule full_rows_numeric_column)
  have f6: "full_rows final"
    using f5 f2 steps(6) by (rule full_rows_merge)
  have f7: "full_rows metro0"
    using f6 steps(7) by (rule full_rows_subway_rows)
  have full: "full_rows stop_times \<and> full_rows tripsandroutes \<and> full_rows final_stops0
       \<and> full_rows final_stops1 \<and> full_rows final_stops \<and> full_rows final \<and> full_rows metro0"
    by (intro conjI f1 f2 f3 f4 f5 f6 f7)
  let ?g = "\<lambda>r. projr (seconds_since_epoch (cell_at (columns metro0) r ''arrival_time''))"
  let ?df1 = "set_column metro0 ''arrival_time_int'' (map ?g (rows metro0))"
  have df1: "?df1 = metro0\<lparr>columns := with_column (columns metro0) ''arrival_time_int'',
                            rows := map (\<lambda>r. with_cell (columns metro0) ''arrival_time_int'' (?g r) r) (rows metro0)\<rparr>"
    by (rule set_column_rows)
  have zeros: "map (\<lambda>r. IntV 0) (rows metro0) = map (\<lambda>r. IntV 0) (rows ?df1)"
    by (simp add: df1 o_def)
  have "metro = ?df1\<lparr>columns := with_column (columns ?df1) ''elevation'',
                      rows := map (\<lambda>r. with_cell (columns ?df1) ''elevation'' (IntV 0) r) (rows ?df1)\<rparr>"
    unfolding metro zeros by (rule set_column_rows)
  then have cols: "columns metro = with_column (with_column (columns metro0) ''arrival_time_int'') ''elevation''"
    and rows: "rows metro =
       map (\<lambda>r. with_cell (with_column (columns metro0) ''arrival_time_int'') ''elevation'' (IntV 0)
                  (with_cell (columns metro0) ''arrival_time_int'' (?g r) r))
           (rows metro0)"
    by (simp_all add: df1 o_def)
  show thesis
    by (rule that[OF steps full cols rows ok])
qed

text \<open>
  A row of the metro frame comes from a row of the filtered frame and has its cells in
  every column but the two added ones.
\<close>

lemma metro_row_source:
  assumes "full_rows metro0"
    and "columns metro = with_column (with_column (columns metro0) ''arrival_time_int'') ''elevation''"
    and "rows metro =
       map (\<lambda>r. with_cell (with_column (columns metro0) ''arrival_time_int'') ''elevation'' (IntV 0)
                  (with_cell (columns metro0) ''arrival_time_int'' (g r) r))
           (rows metro0)"
    and "r \<in> set (rows metro)"
  obtains r0 where "r0 \<in> set (rows metro0)"
    and "\<And>c. c \<noteq> ''elevation'' \<Longrightarrow> c \<noteq> ''arrival_time_int'' \<Longrightarrow>
           cell_at (columns metro) r c = cell_at (columns metro0) r0 c"
proof -
  let ?row = "\<lambda>r. with_cell (with_column (columns metro0) ''arrival_time_int'') ''elevation'' (IntV 0)
                  (with_cell (columns metro0) ''arrival_time_int'' (g r) r)"
  have "r \<in> ?row ` set (rows metro0)"
    using assms(4) unfolding assms(3) by simp
  then obtain r0 where r0: "r0 \<in> set (rows metro0)" and r: "r = ?row r0"
    by (rule imageE)
  have len: "length r0 = length (columns metro0)"
    using assms(1) r0 by (simp add: full_rows_def)
  have "cell_at (columns metro) r c = cell_at (columns metro0) r0 c"
    if "c \<noteq> ''elevation''" "c \<noteq> ''arrival_time_int''" for c
    unfolding assms(2) r using that by (simp add: metro_row_cell[OF len])
  with r0 show thesis
    by (rule that)
qed

section \<open>Rows dropped by the stop-times preprocessing\<close>

text \<open>
  C10.  After the time columns are parsed, \<open>dropna\<close> removes every row that has a missing
  value in any column of stop\_times: such a row, whatever its times, contributes nothing
  to the preprocessed frame or to the assembled frame, which are the same as if the row
  had not been in the input, and no row of the preprocessed frame has a missing cell.
\<close>

theorem dropna_any_column:
  assumes "wf_table df" and "r \<in> set (rows df)" and "NaN \<in> set r"
  shows "process_stop_times lib (df\<lparr>rows := removeAll r (rows df)\<rparr>) = process_stop_times lib df
       \<and> assemble lib trips routes stops (df\<lparr>rows := removeAll r (rows df)\<rparr>)
           = assemble lib trips routes stops df
       \<and> (\<forall>df'. process_stop_times lib df = Inr df' \<longrightarrow> (\<forall>r' \<in> set (rows df'). NaN \<notin> set r'))"
proof -
  have "NaN \<in> set (convert_row lib (columns df) time_columns r)"
    using assms by (intro convert_row_keeps_NaN) (simp_all add: wf_table_def full_rows_def)
  then have eq: "process_stop_times lib (df\<lparr>rows := removeAll r (rows df)\<rparr>) = process_stop_times lib df"
    by (rule process_stop_times_without_row)
  moreover have "\<forall>df'. process_stop_times lib df = Inr df' \<longrightarrow> (\<forall>r' \<in> set (rows df'). NaN \<notin> set r')"
    by (auto simp: process_stop_times_eq split: if_splits)
  ultimately show ?thesis
    using assemble_cong[OF eq] by blast
qed

theorem dropna_any_column_witness:
  "wf_table stop_times_gaps
   \<and> [Str ''T1'', Str ''08:10:00'', Str ''08:10:30'', Str ''S3'', NaN] \<in> set (rows stop_times_gaps)
   \<and> NaN \<in> set [Str ''T1'', Str ''08:10:00'', Str ''08:10:30'', Str ''S3'', NaN]
   \<and> to_datetime example_library time_format (Str ''08:10:00'') = Timestamp (Datetime 1900 1 1 8 10 0)
   \<and> to_datetime example_library time_format (Str ''08:10:30'') = Timestamp (Datetime 1900 1 1 8 10 30)
   \<and> process_stop_times example_library
        (stop_times_gaps\<lparr>rows := removeAll [Str ''T1'', Str ''08:10:00'', Str ''08:10:30'', Str ''S3'', NaN]
                                    (rows stop_times_gaps)\<rparr>)
      = process_stop_times example_library stop_times_gaps
   \<and> assemble example_library trips_one routes_one stops_three
        (stop_times_gaps\<lparr>rows := removeAll [Str ''T1'', Str ''08:10:00'', Str ''08:10:30'', Str ''S3'', NaN]
                                    (rows stop_times_gaps)\<rparr>)
      = assemble example_library trips_one routes_one stops_three stop_times_gaps"
proof -
  have wf: "wf_table stop_times_gaps"
    by (simp add: wf_table_def full_rows_def stop_times_gaps_def)
  have mem: "[Str ''T1'', Str ''08:10:00'', Str ''08:10:30'', Str ''S3'', NaN] \<in> set (rows stop_times_gaps)"
    by (simp add: stop_times_gaps_def)
  have nan: "NaN \<in> set [Str ''T1'', Str ''08:10:00'', Str ''08:10:30'', Str ''S3'', NaN]"
    by simp
  have t1: "to_datetime example_library time_format (Str ''08:10:00'') = Timestamp (Datetime 1900 1 1 8 10 0)"
    by (simp add: to_datetime_def example_library_def time_format_def strptime_hms_def digit_def)
  have t2: "to_datetime example_library time_format (Str ''08:10:30'') = Timestamp (Datetime 1900 1 1 8 10 30)"
    by (simp add: to_datetime_def example_library_def time_format_def strptime_hms_def digit_def)
  show ?thesis
    using dropna_any_column[OF wf mem nan, of example_library trips_one routes_one stops_three] wf mem t1 t2
    by simp
qed

text \<open>
  C8.  A stop\_times row whose arrival or departure time does not parse under the format
  (\<open>to_datetime\<close> coerces it to missing; 25:61:00 is such a time) is removed by
  \<open>dropna\<close>: the preprocessed frame and the assembled frame, from which every geometry
  is built, are the same as if the row had not been in the input.  No error comes from
  such a row: the preprocessing fails only when a time column is absent.
\<close>

theorem unparseable_time_row_excluded:
  assumes "wf_table df" and "r \<in> set (rows df)"
    and "to_datetime lib time_format (cell_at (columns df) r ''arrival_time'') = NaN
         \<or> to_datetime lib time_format (cell_at (columns df) r ''departure_time'') = NaN"
  shows "process_stop_times lib (df\<lparr>rows := removeAll r (rows df)\<rparr>) = process_stop_times lib df
       \<and> assemble lib trips routes stops (df\<lparr>rows := removeAll r (rows df)\<rparr>)
           = assemble lib trips routes stops df
       \<and> ((\<exists>df'. process_stop_times lib df = Inr df') \<longleftrightarrow> set time_columns \<subseteq> set (columns df))
       \<and> (strptime lib time_format s = None \<longrightarrow> to_datetime lib time_format (Str s) = NaN)
       \<and> strptime_hms time_format ''25:61:00'' = None"
proof -
  have eq: "process_stop_times lib (df\<lparr>rows := removeAll r (rows df)\<rparr>) = process_stop_times lib df"
  proof (cases "set time_columns \<subseteq> set (columns df)")
    case True
    have "NaN \<in> set (convert_row lib (columns df) time_columns r)"
      using assms True by (intro convert_row_bad_time) (simp_all add: wf_table_def full_rows_def)
    then show ?thesis by (rule process_stop_times_without_row)
  next
    case False
    then show ?thesis by (simp add: process_stop_times_eq)
  qed
  moreover have "(\<exists>df'. process_stop_times lib df = Inr df') \<longleftrightarrow> set time_columns \<subseteq> set (columns df)"
    by (simp add: process_stop_times_eq)
  moreover have "strptime lib time_format s = None \<longrightarrow> to_datetime lib time_format (Str s) = NaN"
    by (simp add: to_datetime_def)
  moreover have "strptime_hms time_format ''25:61:00'' = None"
    by (simp add: strptime_hms_def time_format_def digit_def)
  ultimately show ?thesis
    using assemble_cong[OF eq] by blast
qed

theorem unparseable_time_row_excluded_witness:
  "wf_table stop_times_gaps
   \<and> [Str ''T1'', Str ''25:61:00'', Str ''25:61:30'', Str ''S2'', IntV 2] \<in> set (rows stop_times_gaps)
   \<and> to_datetime example_library time_format
        (cell_at (columns stop_times_gaps) [Str ''T1'', Str ''25:61:00'', Str ''25:61:30'', Str ''S2'', IntV 2]
           ''arrival_time'') = NaN
   \<and> process_stop_times example_library
        (stop_times_gaps\<lparr>rows := removeAll [Str ''T1'', Str ''25:61:00'', Str ''25:61:30'', Str ''S2'', IntV 2]
                                    (rows stop_times_gaps)\<rparr>)
      = process_stop_times example_library stop_times_gaps
   \<and> assemble example_library trips_one routes_one stops_three
        (stop_times_gaps\<lparr>rows := removeAll [Str ''T1'', Str ''25:61:00'', Str ''25:61:30'', Str ''S2'', IntV 2]
                                    (rows stop_times_gaps)\<rparr>)
      = assemble example_library trips_one routes_one stops_three stop_times_gaps
   \<and> (\<exists>df'. process_stop_times example_library stop_times_gaps = Inr df')"
proof -
  have wf: "wf_table stop_times_gaps"
    by (simp add: wf_table_def full_rows_def stop_times_gaps_def)
  have mem: "[Str ''T1'', Str ''25:61:00'', Str ''25:61:30'', Str ''S2'', IntV 2] \<in> set (rows stop_times_gaps)"
    by (simp add: stop_times_gaps_def)
  have bad: "to_datetime example_library time_format
        (cell_at (columns stop_times_gaps) [Str ''T1'', Str ''25:61:00'', Str ''25:61:30'', Str ''S2'', IntV 2]
           ''arrival_time'') = NaN"
    by (simp add: to_datetime_def example_library_def time_format_def strptime_hms_def digit_def
        cell_at_def stop_times_gaps_def)
  have cols: "set time_columns \<subseteq> set (columns stop_times_gaps)"
    by (simp add: time_columns_def stop_times_gaps_def)
  show ?thesis
    using unparseable_time_row_excluded[OF wf mem disjI1[OF bad], of trips_one routes_one stops_three]
      wf mem bad cols
    by simp
qed

section \<open>The elapsed-seconds column\<close>


lemma example_csv_tables:
  "csv_table trips_one" "csv_table routes_one" "csv_table stops_three" "csv_table stop_times_one"
  by (simp_all add: csv_table_def wf_table_def full_rows_def all_cells_def no_timestamp_def
      trips_one_def routes_one_def stops_three_def stop_times_one_def)

lemma assemble_example_one:
  "assemble example_library trips_one routes_one stops_three stop_times_one = Inr metro_one"
  by code_simp



section \<open>Features and documents of the Line Geometry Builder\<close>







text \<open>
  C6.  In every document that the Builder writes, the \<open>trip\<close> list of every feature has
  exactly one element: the trip key of the group of rows from which the geometry of the
  feature is built.
\<close>

theorem trip_property_single:
  assumes "create_geojson_file_main lib current_dir fs = (res, fs')"
    and "fs' p = Some (GeoJsonFile features)" and "fs' p \<noteq> fs p" and "f \<in> set features"
  shows "\<exists>df line k. load_metro_data fs (metro_file current_dir) = Inr df
           \<and> p = output_file lib (path_join current_dir ''geojson'') line
           \<and> create_geojson_features df line = Inr features
           \<and> k \<in> set (trip_keys df line) \<and> trip f = [k]
           \<and> geometry f = map (point (columns df)) (trip_rows df line k)
           \<and> trip_rows df line k \<noteq> []"
proof -
  from assms(1,3) obtain df names where
    df: "load_metro_data fs (metro_file current_dir) = Inr df"
    and run: "process_lines lib df (path_join current_dir ''geojson'') (unique names) fs = (res, fs')"
    by (auto simp: create_geojson_file_main_cases metro_file_def split: sum.splits)
  from process_lines_files[OF run assms(3)] assms(2) obtain line where
    line: "create_geojson_features df line = Inr features"
      "p = output_file lib (path_join current_dir ''geojson'') line"
    by auto
  have "features = map (trip_feature_of df line) (trip_keys df line)"
    using line(1) by (rule create_geojson_features_Inr)
  with assms(4) obtain k where k: "k \<in> set (trip_keys df line)" "f = trip_feature_of df line k"
    by auto
  have "trip f = [k]"
    using k by (simp add: trip_of_feature)
  moreover have "geometry f = map (point (columns df)) (trip_rows df line k)"
    using k(2) by (simp add: trip_feature_of_def)
  moreover have "trip_rows df line k \<noteq> []"
    using k(1) by (simp add: trip_keys_set)
  ultimately show ?thesis
    using df line k(1) by blast
qed

section \<open>Files left by the two stages\<close>










lemma builder_on_feed_two:
  "fst (create_geojson_file_main example_library ''/work'' feed_two_assembled) = Inl ValueError"
  "snd (create_geojson_file_main example_library ''/work'' feed_two_assembled) ''/work/geojson/L1.geojson''
     = Some (GeoJsonFile features_L1)"
  "snd (create_geojson_file_main example_library ''/work'' feed_two_assembled) ''/work/geojson/L2.geojson''
     = Some PartialFile"
  "feed_two_assembled ''/work/geojson/L1.geojson'' = None"
  by code_simp+




theorem trip_property_single_witness:
  "create_geojson_file_main example_library ''/work'' feed_two_assembled
     = (Inl ValueError, snd (create_geojson_file_main example_library ''/work'' feed_two_assembled))
   \<and> snd (create_geojson_file_main example_library ''/work'' feed_two_assembled) ''/work/geojson/L1.geojson''
       = Some (GeoJsonFile features_L1)
   \<and> snd (create_geojson_file_main example_library ''/work'' feed_two_assembled) ''/work/geojson/L1.geojson''
       \<noteq> feed_two_assembled ''/work/geojson/L1.geojson''
   \<and> hd features_L1 \<in> set features_L1
   \<and> trip (hd features_L1) = [Str ''T1'']
   \<and> (\<exists>df line k. load_metro_data feed_two_assembled (metro_file ''/work'') = Inr df
           \<and> ''/work/geojson/L1.geojson'' = output_file example_library (path_join ''/work'' ''geojson'') line
           \<and> create_geojson_features df line = Inr features_L1
           \<and> k \<in> set (trip_keys df line) \<and> trip (hd features_L1) = [k]
           \<and> geometry (hd features_L1) = map (point (columns df)) (trip_rows df line k)
           \<and> trip_rows df line k \<noteq> [])"
proof -
  have run: "create_geojson_file_main example_library ''/work'' feed_two_assembled
     = (Inl ValueError, snd (create_geojson_file_main example_library ''/work'' feed_two_assembled))"
    using builder_on_feed_two(1) by (simp add: prod_eq_iff)
  have new: "snd (create_geojson_file_main example_library ''/work'' feed_two_assembled) ''/work/geojson/L1.geojson''
       \<noteq> feed_two_assembled ''/work/geojson/L1.geojson''"
    by (simp add: builder_on_feed_two)
  have mem: "hd features_L1 \<in> set features_L1"
    by (simp add: features_L1_def)
  have t: "trip (hd features_L1) = [Str ''T1'']"
    by (simp add: features_L1_def)
  show ?thesis
    by (intro conjI run builder_on_feed_two(2) new mem t
        trip_property_single[OF run builder_on_feed_two(2) new mem])
qed

section \<open>Determinism of the Assembler\<close>



section \<open>Rows of the assembled frame\<close>

lemma plain_names:
  "plain ''departure_time''" "plain ''arrival_time''" "plain ''route_type''" "plain ''route_id''"
  "plain ''route_short_name''" "plain ''trip_id''" "plain ''stop_id''"
  by (simp_all add: plain_def)

text \<open>
  C4.  In every row of the assembled frame the route type is the subway code 1 and the
  arrival and departure times are timestamps, that is, both parsed under the format and
  neither is missing.  The feed has its departure times in stop\_times only.
\<close>

theorem assembled_rows_subway_and_timed:
  assumes "assemble lib trips routes stops stop_times = Inr metro"
    and "full_rows trips" and "full_rows routes" and "full_rows stops" and "full_rows stop_times"
    and "''departure_time'' \<notin> set (columns trips)" and "''departure_time'' \<notin> set (columns routes)"
    and "''departure_time'' \<notin> set (columns stops)"
    and "r \<in> set (rows metro)"
  shows "is_one (cell_at (columns metro) r ''route_type'')
       \<and> (\<exists>d. cell_at (columns metro) r ''arrival_time'' = Timestamp d)
       \<and> (\<exists>d. cell_at (columns metro) r ''departure_time'' = Timestamp d)"
proof -
  obtain st tripsandroutes final_stops0 final_stops1 final_stops final metro0 where
    steps: "process_stop_times lib stop_times = Inr st"
      "merge trips routes ''route_id'' = Inr tripsandroutes"
      "merge st stops ''stop_id'' = Inr final_stops0"
      "numeric_column lib final_stops0 ''stop_lat'' = Inr final_stops1"
      "numeric_column lib final_stops1 ''stop_lon'' = Inr final_stops"
      "merge final_stops tripsandroutes ''trip_id'' = Inr final"
      "subway_rows final = Inr metro0"
    and full: "full_rows st \<and> full_rows tripsandroutes \<and> full_rows final_stops0
       \<and> full_rows final_stops1 \<and> full_rows final_stops \<and> full_rows final \<and> full_rows metro0"
    and cols: "columns metro = with_column (with_column (columns metro0) ''arrival_time_int'') ''elevation''"
    and rows: "rows metro =
       map (\<lambda>r. with_cell (with_column (columns metro0) ''arrival_time_int'') ''elevation'' (IntV 0)
                  (with_cell (columns metro0) ''arrival_time_int''
                     (projr (seconds_since_epoch (cell_at (columns metro0) r ''arrival_time''))) r))
           (rows metro0)"
    and ok: "\<forall>r \<in> set (rows metro0). \<not> isl (seconds_since_epoch (cell_at (columns metro0) r ''arrival_time''))"
    by (rule assemble_pipeline[OF assms(1-5)])
  have f: "full_rows st" "full_rows final_stops0" "full_rows final_stops1" "full_rows final_stops"
    "full_rows metro0"
    using full by simp_all
  obtain r0 where r0: "r0 \<in> set (rows metro0)"
    and same: "\<And>c. c \<noteq> ''elevation'' \<Longrightarrow> c \<noteq> ''arrival_time_int'' \<Longrightarrow>
           cell_at (columns metro) r c = cell_at (columns metro0) r0 c"
  proof (rule metro_row_source[OF f(5) cols rows assms(9)])
    fix r0
    assume "r0 \<in> set (rows metro0)"
      and "\<And>c. c \<noteq> ''elevation'' \<Longrightarrow> c \<noteq> ''arrival_time_int'' \<Longrightarrow>
             cell_at (columns metro) r c = cell_at (columns metro0) r0 c"
    then show thesis
      by (rule that)
  qed
  have m0: "columns metro0 = columns final"
    "rows metro0 = filter (\<lambda>r. is_one (cell_at (columns final) r ''route_type'')) (rows final)"
    using subway_rows_Inr[OF steps(7)] by simp_all
  have "is_one (cell_at (columns metro0) r0 ''route_type'')"
    using r0 by (simp add: m0)
  then have one: "is_one (cell_at (columns metro) r ''route_type'')"
    by (simp add: same)
  obtain a where "cell_at (columns metro0) r0 ''arrival_time'' = Timestamp a"
    using ok r0 seconds_since_epoch_Inr by blast
  then have arr: "cell_at (columns metro) r ''arrival_time'' = Timestamp a"
    by (simp add: same)
  have dep_st: "''departure_time'' \<in> set (columns st)"
    using process_stop_times_frame(1,2)[OF steps(1)] by (simp add: time_columns_def)
  have dep_fs0: "''departure_time'' \<in> set (columns final_stops0)"
    using merge_has_column[OF steps(3) plain_names(1)] dep_st assms(8) by simp
  have cols_fs: "columns final_stops = columns final_stops0" "columns final_stops1 = columns final_stops0"
    using numeric_column_frame(1)[OF steps(4)] numeric_column_frame(1)[OF steps(5)] by simp_all
  have dep_tr: "''departure_time'' \<notin> set (columns tripsandroutes)"
    using merge_has_column[OF steps(2) plain_names(1)] assms(6,7) by simp
  have in_final: "r0 \<in> set (rows final)"
    using r0 by (simp add: m0)
  obtain lr where lr: "lr \<in> set (rows final_stops)"
    and c1: "cell_at (columns final) r0 ''departure_time'' = cell_at (columns final_stops) lr ''departure_time''"
  proof (rule merge_row_cells[OF steps(6) f(4) in_final plain_names(6)])
    fix lr rr
    assume "lr \<in> set (rows final_stops)"
      and "\<And>c. plain c \<Longrightarrow> c \<in> set (columns final_stops) \<Longrightarrow> c \<notin> set (columns tripsandroutes) \<Longrightarrow>
             cell_at (columns final) r0 c = cell_at (columns final_stops) lr c"
    then show thesis
      using that dep_fs0 dep_tr plain_names(1) by (simp add: cols_fs)
  qed
  obtain lr1 where lr1: "lr1 \<in> set (rows final_stops1)"
    and c2: "cell_at (columns final_stops) lr ''departure_time'' = cell_at (columns final_stops1) lr1 ''departure_time''"
  proof (rule numeric_column_cell[OF steps(5) f(3) lr])
    fix row
    assume "row \<in> set (rows final_stops1)"
      and "\<And>c'. c' \<noteq> ''stop_lon'' \<Longrightarrow> cell_at (columns final_stops) lr c' = cell_at (columns final_stops1) row c'"
    then show thesis
      using that by simp
  qed
  obtain lr0 where lr0: "lr0 \<in> set (rows final_stops0)"
    and c3: "cell_at (columns final_stops1) lr1 ''departure_time'' = cell_at (columns final_stops0) lr0 ''departure_time''"
  proof (rule numeric_column_cell[OF steps(4) f(2) lr1])
    fix row
    assume "row \<in> set (rows final_stops0)"
      and "\<And>c'. c' \<noteq> ''stop_lat'' \<Longrightarrow> cell_at (columns final_stops1) lr1 c' = cell_at (columns final_stops0) row c'"
    then show thesis
      using that by simp
  qed
  obtain sr where sr: "sr \<in> set (rows st)"
    and c4: "cell_at (columns final_stops0) lr0 ''departure_time'' = cell_at (columns st) sr ''departure_time''"
  proof (rule merge_row_cells[OF steps(3) f(1) lr0 plain_names(7)])
    fix sr rr
    assume "sr \<in> set (rows st)"
      and "\<And>c. plain c \<Longrightarrow> c \<in> set (columns st) \<Longrightarrow> c \<notin> set (columns stops) \<Longrightarrow>
             cell_at (columns final_stops0) lr0 c = cell_at (columns st) sr c"
    then show thesis
      using that dep_st assms(8) plain_names(1) by simp
  qed
  obtain d where "cell_at (columns st) sr ''departure_time'' = Timestamp d"
    using process_stop_times_timestamps[OF steps(1) assms(5) sr] by blast
  then have "cell_at (columns final) r0 ''departure_time'' = Timestamp d"
    by (simp only: c1 c2 c3 c4)
  then have dep: "cell_at (columns metro) r ''departure_time'' = Timestamp d"
    by (simp add: same m0)
  show ?thesis
    using one arr dep by blast
qed

lemma example_full_rows:
  "full_rows trips_one" "full_rows routes_one" "full_rows stops_three" "full_rows stop_times_one"
  using example_csv_tables by (simp_all add: csv_table_def wf_table_def)

theorem assembled_rows_subway_and_timed_witness:
  "assemble example_library trips_one routes_one stops_three stop_times_one = Inr metro_one
   \<and> full_rows trips_one \<and> full_rows routes_one \<and> full_rows stops_three \<and> full_rows stop_times_one
   \<and> ''departure_time'' \<notin> set (columns trips_one) \<and> ''departure_time'' \<notin> set (columns routes_one)
   \<and> ''departure_time'' \<notin> set (columns stops_three)
   \<and> hd (rows metro_one) \<in> set (rows metro_one)
   \<and> is_one (cell_at (columns metro_one) (hd (rows metro_one)) ''route_type'')
   \<and> (\<exists>d. cell_at (columns metro_one) (hd (rows metro_one)) ''arrival_time'' = Timestamp d)
   \<and> (\<exists>d. cell_at (columns metro_one) (hd (rows metro_one)) ''departure_time'' = Timestamp d)"
proof -
  have n: "''departure_time'' \<notin> set (columns trips_one)" "''departure_time'' \<notin> set (columns routes_one)"
    "''departure_time'' \<notin> set (columns stops_three)"
    by (simp_all add: trips_one_def routes_one_def stops_three_def)
  have mem: "hd (rows metro_one) \<in> set (rows metro_one)"
    by (simp add: metro_one_def)
  note res = assembled_rows_subway_and_timed[OF assemble_example_one example_full_rows n mem]
  show ?thesis
    by (intro conjI assemble_example_one example_full_rows n mem
        conjunct1[OF res] conjunct1[OF conjunct2[OF res]] conjunct2[OF conjunct2[OF res]])
qed

section \<open>The number of assembled rows\<close>

lemma filter_key_at_most_one:
  "distinct (map f xs) \<Longrightarrow> length (filter (\<lambda>x. v = f x) xs) \<le> 1"
proof (induction xs)
  case Nil
  then show ?case by simp
next
  case (Cons a xs)
  show ?case
  proof (cases "v = f a")
    case True
    then have "\<forall>x \<in> set xs. v \<noteq> f x"
      using Cons.prems by auto
    then have "filter (\<lambda>x. v = f x) xs = []"
      by (simp add: filter_empty_conv)
    with True show ?thesis by simp
  next
    case False
    then show ?thesis using Cons by simp
  qed
qed

lemma length_concat_at_most:
  "\<forall>x \<in> set xs. length (g x) \<le> 1 \<Longrightarrow> length (concat (map g xs)) \<le> length xs"
proof (induction xs)
  case Nil
  then show ?case by simp
next
  case (Cons a xs)
  then have "length (g a) \<le> 1" "length (concat (map g xs)) \<le> length xs"
    by simp_all
  then show ?case by simp
qed

lemma matches_at_most_one:
  assumes "unique_key r k"
  shows "length (filter (\<lambda>rr. key_eq v (cell_at (columns r) rr k)) (rows r)) \<le> 1"
  using filter_key_at_most_one[of "\<lambda>rr. key_norm (cell_at (columns r) rr k)" "rows r" "key_norm v"] assms
  by (simp add: unique_key_def key_eq_def)

lemma merge_rows_concat:
  assumes "merge l r k = Inr t"
  shows "rows t = concat (map (\<lambda>lr.
                    map (\<lambda>rr. lr @ without_key (columns r) k rr)
                        (filter (\<lambda>rr. key_eq (cell_at (columns l) lr k) (cell_at (columns r) rr k))
                                (rows r)))
                    (rows l))"
  using assms by (auto simp: merge_def split: if_splits)

lemma merge_length:
  assumes "merge l r k = Inr t" and "unique_key r k"
  shows "length (rows t) \<le> length (rows l)"
  unfolding merge_rows_concat[OF assms(1)]
proof (rule length_concat_at_most, rule ballI)
  fix lr
  show "length (map (\<lambda>rr. lr @ without_key (columns r) k rr)
                 (filter (\<lambda>rr. key_eq (cell_at (columns l) lr k) (cell_at (columns r) rr k))
                         (rows r))) \<le> 1"
    using matches_at_most_one[OF assms(2), of "cell_at (columns l) lr k"] by simp
qed

lemma distinct_concat_map:
  assumes "distinct (map f xs)"
    and "\<forall>x \<in> set xs. length (g x) \<le> 1 \<and> (\<forall>y \<in> set (g x). h y = f x)"
  shows "distinct (map h (concat (map g xs)))"
  using assms
proof (induction xs)
  case Nil
  then show ?case by simp
next
  case (Cons a xs)
  have rest: "distinct (map h (concat (map g xs)))"
    using Cons by simp
  have inside: "set (map h (concat (map g xs))) \<subseteq> f ` set xs"
    using Cons.prems(2) by auto
  have fa: "f a \<notin> f ` set xs"
    using Cons.prems(1) by simp
  show ?case
  proof (cases "g a")
    case Nil
    then show ?thesis using rest by simp
  next
    case (Cons y ys)
    then have "ys = []"
      using Cons.prems(2) by simp
    moreover have "h y = f a"
      using Cons Cons.prems(2) by simp
    ultimately show ?thesis
      using Cons rest inside fa by auto
  qed
qed

lemma unique_key_merge:
  assumes "merge l r k = Inr t" and "full_rows l" and "unique_key l c" and "unique_key r k"
    and "plain c" and "c \<in> set (columns l)" and "c = k \<or> c \<notin> set (columns r)"
  shows "unique_key t c"
proof -
  let ?g = "\<lambda>lr. map (\<lambda>rr. lr @ without_key (columns r) k rr)
                        (filter (\<lambda>rr. key_eq (cell_at (columns l) lr k) (cell_at (columns r) rr k))
                                (rows r))"
  have "\<forall>lr \<in> set (rows l). length (?g lr) \<le> 1
          \<and> (\<forall>y \<in> set (?g lr). key_norm (cell_at (columns t) y c) = key_norm (cell_at (columns l) lr c))"
  proof
    fix lr assume lr: "lr \<in> set (rows l)"
    have len: "length lr = length (columns l)"
      using assms(2) lr by (simp add: full_rows_def)
    have "cell_at (columns t) (lr @ rest) c = cell_at (columns l) lr c" for rest
      by (rule merge_cell_left[OF assms(1,5,6,7) len])
    then show "length (?g lr) \<le> 1
          \<and> (\<forall>y \<in> set (?g lr). key_norm (cell_at (columns t) y c) = key_norm (cell_at (columns l) lr c))"
      using matches_at_most_one[OF assms(4)] by auto
  qed
  with assms(3) have "distinct (map (\<lambda>y. key_norm (cell_at (columns t) y c)) (concat (map ?g (rows l))))"
    unfolding unique_key_def by (rule distinct_concat_map)
  then show ?thesis
    by (simp only: unique_key_def merge_rows_concat[OF assms(1)])
qed

text \<open>
  C3, as the code has it.  An inner join repeats a row once for every row of the other
  frame with the same key.  When the feed has at most one stops row for a stop\_id, at
  most one trips row for a trip\_id (a column of trips and not of routes) and at most one
  routes row for a route\_id, the assembled frame has at most as many rows as stop\_times.
\<close>

theorem assembled_row_count:
  assumes "assemble lib trips routes stops stop_times = Inr metro"
    and "full_rows trips" and "full_rows routes" and "full_rows stops" and "full_rows stop_times"
    and "unique_key stops ''stop_id''" and "unique_key trips ''trip_id''"
    and "unique_key routes ''route_id''" and "''trip_id'' \<notin> set (columns routes)"
  shows "length (rows metro) \<le> length (rows stop_times)"
proof -
  obtain st tripsandroutes final_stops0 final_stops1 final_stops final metro0 where
    steps: "process_stop_times lib stop_times = Inr st"
      "merge trips routes ''route_id'' = Inr tripsandroutes"
      "merge st stops ''stop_id'' = Inr final_stops0"
      "numeric_column lib final_stops0 ''stop_lat'' = Inr final_stops1"
      "numeric_column lib final_stops1 ''stop_lon'' = Inr final_stops"
      "merge final_stops tripsandroutes ''trip_id'' = Inr final"
      "subway_rows final = Inr metro0"
    and full: "full_rows st \<and> full_rows tripsandroutes \<and> full_rows final_stops0
       \<and> full_rows final_stops1 \<and> full_rows final_stops \<and> full_rows final \<and> full_rows metro0"
    and cols: "columns metro = with_column (with_column (columns metro0) ''arrival_time_int'') ''elevation''"
    and rows: "rows metro =
       map (\<lambda>r. with_cell (with_column (columns metro0) ''arrival_time_int'') ''elevation'' (IntV 0)
                  (with_cell (columns metro0) ''arrival_time_int''
                     (projr (seconds_since_epoch (cell_at (columns metro0) r ''arrival_time''))) r))
           (rows metro0)"
    and ok: "\<forall>r \<in> set (rows metro0). \<not> isl (seconds_since_epoch (cell_at (columns metro0) r ''arrival_time''))"
    by (rule assemble_pipeline[OF assms(1-5)])
  have "''trip_id'' \<in> set (columns tripsandroutes)"
    by (rule merge_columns(3)[OF steps(6)])
  then have trip_col: "''trip_id'' \<in> set (columns trips)"
    using merge_has_column[OF steps(2) plain_names(6)] assms(9) by simp
  have "unique_key tripsandroutes ''trip_id''"
    using assms(9) by (intro unique_key_merge[OF steps(2) assms(2,7,8) plain_names(6) trip_col]) simp
  then have l6: "length (rows final) \<le> length (rows final_stops)"
    by (rule merge_length[OF steps(6)])
  have l5: "length (rows final_stops) = length (rows final_stops1)"
    by (simp add: numeric_column_frame(2)[OF steps(5)])
  have l4: "length (rows final_stops1) = length (rows final_stops0)"
    by (simp add: numeric_column_frame(2)[OF steps(4)])
  have l3: "length (rows final_stops0) \<le> length (rows st)"
    by (rule merge_length[OF steps(3) assms(6)])
  have l1: "length (rows st) \<le> length (rows stop_times)"
    unfolding process_stop_times_frame(3)[OF steps(1)]
    using length_filter_le[of "\<lambda>r. NaN \<notin> set r"
        "map (convert_row lib (columns stop_times) time_columns) (rows stop_times)"]
    by simp
  have l7: "length (rows metro0) \<le> length (rows final)"
    by (simp add: subway_rows_Inr(3)[OF steps(7)])
  have l8: "length (rows metro) = length (rows metro0)"
    by (simp add: rows)
  show ?thesis
    using l1 l3 l4 l5 l6 l7 l8 by linarith
qed

lemma assemble_example_twice:
  "assemble example_library trips_one routes_one stops_twice stop_times_one = Inr metro_twice"
  by code_simp

theorem assembled_row_count_witness:
  "assemble example_library trips_one routes_one stops_three stop_times_one = Inr metro_one
   \<and> full_rows trips_one \<and> full_rows routes_one \<and> full_rows stops_three \<and> full_rows stop_times_one
   \<and> unique_key stops_three ''stop_id'' \<and> unique_key trips_one ''trip_id''
   \<and> unique_key routes_one ''route_id'' \<and> ''trip_id'' \<notin> set (columns routes_one)
   \<and> length (rows metro_one) \<le> length (rows stop_times_one)"
proof -
  have u: "unique_key stops_three ''stop_id''" "unique_key trips_one ''trip_id''"
    "unique_key routes_one ''route_id''"
    by (simp_all add: unique_key_def stops_three_def trips_one_def routes_one_def cell_at_def key_norm_def)
  have n: "''trip_id'' \<notin> set (columns routes_one)"
    by (simp add: routes_one_def)
  show ?thesis
    by (intro conjI assemble_example_one example_full_rows u n
        assembled_row_count[OF assemble_example_one example_full_rows u n])
qed

text \<open>
  With the stop S1 listed twice in stops, one stop\_times row gives two assembled rows.
\<close>

theorem assembled_row_count_counterexample:
  "assemble example_library trips_one routes_one stops_twice stop_times_one = Inr metro_twice
   \<and> length (rows stop_times_one) = 1 \<and> length (rows metro_twice) = 2
   \<and> \<not> length (rows metro_twice) \<le> length (rows stop_times_one)"
  using assemble_example_twice by (simp add: metro_twice_def stop_times_one_def)

section \<open>Routes that are not subway routes\<close>










end
